theory Spec2Isabelle
  imports Complex_Main "HOL-Library.Word" "HOL-Library.Signed_Division"
begin

unbundle bit_operations_syntax

section \<open>JavaScript primitives used by the library code\<close>

text \<open>
  Strings are lists of characters.  A \<open>bigint\<close> is an unbounded \<^typ>\<open>int\<close>; the
  operators \<open>/\<close> and \<open>%\<close> on \<open>bigint\<close> truncate towards zero, which is \<open>sdiv\<close> and
  \<open>smod\<close>.  A thrown exception is a value on the left of a sum.
\<close>

datatype js_error = SyntaxError | TypeError | Error string

definition digit_char :: "nat \<Rightarrow> char" where
  "digit_char d =
     (if d = 0 then CHR ''0'' else if d = 1 then CHR ''1'' else if d = 2 then CHR ''2''
      else if d = 3 then CHR ''3'' else if d = 4 then CHR ''4'' else if d = 5 then CHR ''5''
      else if d = 6 then CHR ''6'' else if d = 7 then CHR ''7'' else if d = 8 then CHR ''8''
      else CHR ''9'')"

definition digit_val :: "char \<Rightarrow> nat option" where
  "digit_val c = map_of (zip ''0123456789'' [0, 1, 2, 3, 4, 5, 6, 7, 8, 9]) c"

text \<open>Decimal rendering of a natural number, most significant digit first.\<close>

fun digits :: "nat \<Rightarrow> string" where
  "digits n = (if n < 10 then [digit_char n] else digits (n div 10) @ [digit_char (n mod 10)])"

declare digits.simps [simp del]

text \<open>\<open>BigInt.prototype.toString()\<close>.\<close>

definition bigint_toString :: "int \<Rightarrow> string" where
  "bigint_toString i = (if i < 0 then CHR ''-'' # digits (nat (- i)) else digits (nat i))"

text \<open>
  \<open>BigInt.prototype.toLocaleString()\<close> depends on the locale of the runtime, so the
  functions that call it take the rendering as a parameter.  Under the \<open>en-US\<close>
  defaults the digits are grouped in threes with commas; the example in the doc
  comment of \<open>formatAmount\<close> in \<open>contractClient.ts\<close>
  (\<open>formatAmount(10_000_0000000n, 7) => "10,000"\<close>) shows that rendering.
\<close>

definition padStart :: "nat \<Rightarrow> char \<Rightarrow> string \<Rightarrow> string" where
  "padStart n c s = replicate (n - length s) c @ s"

fun groupDigits :: "nat \<Rightarrow> string" where
  "groupDigits n =
     (if n < 1000 then digits n
      else groupDigits (n div 1000) @ '','' @ padStart 3 (CHR ''0'') (digits (n mod 1000)))"

declare groupDigits.simps [simp del]

definition toLocaleString_enUS :: "int \<Rightarrow> string" where
  "toLocaleString_enUS i =
     (if i < 0 then CHR ''-'' # groupDigits (nat (- i)) else groupDigits (nat i))"

text \<open>\<open>s.replace(/0+$/, "")\<close>: drop the trailing zeros.\<close>

definition stripTrailingZeros :: "string \<Rightarrow> string" where
  "stripTrailingZeros s = rev (dropWhile (\<lambda>c. c = CHR ''0'') (rev s))"

text \<open>
  \<open>BigInt(s)\<close> on ASCII strings, after the \<open>StringToBigInt\<close> grammar: white space
  around the literal is dropped; nothing left is \<open>0n\<close>; the literal is either
  decimal digits with an optional sign, or an unsigned \<open>0x\<close>, \<open>0o\<close> or \<open>0b\<close>
  literal with at least one digit of its radix.  Anything else is a
  \<open>SyntaxError\<close>, here \<open>None\<close>.
\<close>

fun parse_digits :: "nat \<Rightarrow> string \<Rightarrow> nat option" where
  "parse_digits acc [] = Some acc"
| "parse_digits acc (c # cs) =
     (case digit_val c of None \<Rightarrow> None | Some d \<Rightarrow> parse_digits (10 * acc + d) cs)"

definition isStrWhiteSpaceChar :: "char \<Rightarrow> bool" where
  "isStrWhiteSpaceChar c =
     (c \<in> set [CHR 0x09, CHR 0x0A, CHR 0x0B, CHR 0x0C, CHR 0x0D, CHR 0x20])"

definition trimWhiteSpace :: "string \<Rightarrow> string" where
  "trimWhiteSpace s =
     rev (dropWhile isStrWhiteSpaceChar (rev (dropWhile isStrWhiteSpaceChar s)))"

definition radix_digit_val :: "nat \<Rightarrow> char \<Rightarrow> nat option" where
  "radix_digit_val radix c =
     (case map_of (zip ''0123456789abcdefABCDEF''
                   [0, 1, 2, 3, 4, 5, 6, 7, 8, 9, 10, 11, 12, 13, 14, 15,
                    10, 11, 12, 13, 14, 15]) c of
        None \<Rightarrow> None
      | Some d \<Rightarrow> if d < radix then Some d else None)"

fun parse_radix :: "nat \<Rightarrow> nat \<Rightarrow> string \<Rightarrow> nat option" where
  "parse_radix radix acc [] = Some acc"
| "parse_radix radix acc (c # cs) =
     (case radix_digit_val radix c of
        None \<Rightarrow> None
      | Some d \<Rightarrow> parse_radix radix (radix * acc + d) cs)"

text \<open>The radix and the digits of a literal that starts with \<open>0x\<close>, \<open>0o\<close> or \<open>0b\<close>.\<close>

definition nonDecimalLiteral :: "string \<Rightarrow> (nat \<times> string) option" where
  "nonDecimalLiteral t =
     (case t of
        zero # prefix # ds \<Rightarrow>
          if zero \<noteq> CHR ''0'' then None
          else if prefix = CHR ''x'' \<or> prefix = CHR ''X'' then Some (16, ds)
          else if prefix = CHR ''o'' \<or> prefix = CHR ''O'' then Some (8, ds)
          else if prefix = CHR ''b'' \<or> prefix = CHR ''B'' then Some (2, ds)
          else None
      | _ \<Rightarrow> None)"

definition BigInt_of_string :: "string \<Rightarrow> int option" where
  "BigInt_of_string s =
     (case trimWhiteSpace s of
        [] \<Rightarrow> Some 0
      | c # cs \<Rightarrow>
          if c = CHR ''-'' then
            (if cs = [] then None else map_option (\<lambda>n. - int n) (parse_digits 0 cs))
          else if c = CHR ''+'' then
            (if cs = [] then None else map_option int (parse_digits 0 cs))
          else
            (case nonDecimalLiteral (c # cs) of
               Some (radix, ds) \<Rightarrow>
                 if ds = [] then None else map_option int (parse_radix radix 0 ds)
             | None \<Rightarrow> map_option int (parse_digits 0 (c # cs))))"

section \<open>AmountMath: raw amounts and display strings\<close>

text \<open>
  \<open>formatTokenAmount\<close> of the vesting library (\<open>raw: bigint\<close>, plain \<open>toString\<close>).
\<close>

definition formatTokenAmount :: "int \<Rightarrow> nat \<Rightarrow> string" where
  "formatTokenAmount raw decimals =
     (let divisor = 10 ^ decimals;
          whole = raw sdiv divisor;
          frac = raw smod divisor
      in if frac = 0 then bigint_toString whole
         else bigint_toString whole @ ''.'' @
              stripTrailingZeros (padStart decimals (CHR ''0'') (bigint_toString frac)))"

text \<open>
  \<open>formatTokenAmount\<close> of the Stellar library (\<open>raw: string\<close>): the sentinel
  \<open>"N/A"\<close> is passed through, \<open>BigInt(raw)\<close> may throw, and the whole part is
  rendered with \<open>toLocaleString()\<close>, here the parameter \<open>loc\<close>.
\<close>

definition formatTokenAmount_stellar ::
  "(int \<Rightarrow> string) \<Rightarrow> string \<Rightarrow> nat \<Rightarrow> js_error + string" where
  "formatTokenAmount_stellar loc raw decimals =
     (if raw = ''N/A'' then Inr raw
      else case BigInt_of_string raw of
        None \<Rightarrow> Inl SyntaxError
      | Some num \<Rightarrow>
          (let divisor = 10 ^ decimals;
               whole = num sdiv divisor;
               frac = num smod divisor
           in if frac = 0 then Inr (loc whole)
              else Inr (loc whole @ ''.'' @
                   stripTrailingZeros (padStart decimals (CHR ''0'') (bigint_toString frac)))))"


text \<open>
  Modelled from the spec: \<open>parseToRaw\<close> (imported by the forms as \<open>parseTokenAmount\<close>
  from the Stellar library, whose definition is not among the sources).  The spec:
  split on \<open>.\<close>; reject a fractional segment with more digits than \<open>decimals\<close>
  with \<open>PrecisionError\<close>; pad the fractional segment to exactly \<open>decimals\<close> digits;
  combine \<open>whole * 10^decimals + fraction\<close> as one integer.  Amounts are
  non-negative, so a segment is a run of decimal digits (an empty one counts as
  zero) and anything else is rejected.
\<close>

datatype amount_error = PrecisionError | InvalidAmount

definition padEnd :: "nat \<Rightarrow> char \<Rightarrow> string \<Rightarrow> string" where
  "padEnd n c s = s @ replicate (n - length s) c"

fun split_on :: "char \<Rightarrow> string \<Rightarrow> string list" where
  "split_on sep [] = [[]]"
| "split_on sep (c # cs) =
     (if c = sep then [] # split_on sep cs
      else (case split_on sep cs of [] \<Rightarrow> [[c]] | seg # segs \<Rightarrow> (c # seg) # segs))"

definition parseToRaw :: "string \<Rightarrow> nat \<Rightarrow> amount_error + int" where
  "parseToRaw display decimals =
     (case split_on (CHR ''.'') display of
        [whole] \<Rightarrow>
          (case parse_digits 0 whole of
             None \<Rightarrow> Inl InvalidAmount
           | Some w \<Rightarrow> Inr (int w * 10 ^ decimals))
      | [whole, fraction] \<Rightarrow>
          if decimals < length fraction then Inl PrecisionError
          else (case (parse_digits 0 whole,
                      parse_digits 0 (padEnd decimals (CHR ''0'') fraction)) of
                  (Some w, Some f) \<Rightarrow> Inr (int w * 10 ^ decimals + int f)
                | _ \<Rightarrow> Inl InvalidAmount)
      | _ \<Rightarrow> Inl InvalidAmount)"

section \<open>ValueCodec: 128-bit integers\<close>

text \<open>
  The tagged value of the remote model.  An accessor such as \<open>val.i128()\<close> throws
  when another variant is active.  The two halves of an \<open>I128\<close> are 64-bit words:
  \<open>hi\<close> is read as signed, \<open>lo\<close> as unsigned.
\<close>

datatype ScVal =
    ScvSymbol string
  | ScvString string
  | ScvU32 "32 word"
  | ScvI128 "64 word" "64 word"
  | ScvAddress string
  | ScvBool bool
  | ScvMap "(ScVal \<times> ScVal) list"
  | ScvVec "ScVal list"

text \<open>\<open>decodeI128\<close> of the vesting library: \<open>(hi << 64n) | lo\<close> on \<open>bigint\<close>.\<close>

definition decodeI128 :: "ScVal \<Rightarrow> js_error + int" where
  "decodeI128 val =
     (case val of
        ScvI128 hi lo \<Rightarrow> Inr (push_bit 64 (sint hi) OR uint lo)
      | _ \<Rightarrow> Inl TypeError)"

text \<open>
  \<open>decodeI128\<close> of the Stellar library: both halves go through their decimal
  strings (\<open>BigInt(parts.hi().toString())\<close>), are combined with \<open>+\<close>, and the
  result is returned as a decimal string.
\<close>

definition decodeI128_stellar :: "ScVal \<Rightarrow> js_error + string" where
  "decodeI128_stellar val =
     (case val of
        ScvI128 hi lo \<Rightarrow>
          (case (BigInt_of_string (bigint_toString (sint hi)),
                 BigInt_of_string (bigint_toString (uint lo))) of
             (Some h, Some l) \<Rightarrow> Inr (bigint_toString (push_bit 64 h + l))
           | _ \<Rightarrow> Inl SyntaxError)
      | _ \<Rightarrow> Inl TypeError)"

section \<open>Vesting\<close>

record VestingSchedule =
  recipient :: string
  totalAmount :: int
  cliffLedger :: nat
  endLedger :: nat
  released :: int
  revoked :: bool

record VestingInfo =
  schedule :: VestingSchedule
  vestedAmount :: int
  releasableAmount :: int
  currentLedger :: nat

text \<open>
  Modelled from the spec: \<open>vestedAmount(schedule, currentLedger)\<close>.  The client never
  computes it; it reads \<open>vested_amount\<close> from the vesting contract, whose code is
  not among the sources.  The spec: \<open>0\<close> before the cliff, \<open>totalAmount\<close> from the
  end ledger on, otherwise the floor of
  \<open>totalAmount * (currentLedger - cliffLedger) / (endLedger - cliffLedger)\<close>, with the
  product held exactly (here: unbounded integers).
\<close>

definition vested_amount :: "VestingSchedule \<Rightarrow> nat \<Rightarrow> int" where
  "vested_amount s ledger =
     (if ledger < cliffLedger s then 0
      else if endLedger s \<le> ledger then totalAmount s
      else (totalAmount s * int (ledger - cliffLedger s)) div
           int (endLedger s - cliffLedger s))"

text \<open>
  \<open>fetchVestingInfo\<close>: the three arguments are the outcomes of the remote reads
  (\<open>get_schedule\<close>, \<open>vested_amount\<close>, \<open>getLatestLedger\<close>); \<open>None\<close> is a read that
  rejected, and then the whole call rejects.
\<close>

definition fetchVestingInfo ::
  "VestingSchedule option \<Rightarrow> int option \<Rightarrow> nat option \<Rightarrow> VestingInfo option" where
  "fetchVestingInfo fetchedSchedule fetchedVested latestLedger =
     (case (fetchedSchedule, fetchedVested) of
        (Some sched, Some vested) \<Rightarrow>
          (let releasable = vested - released sched
           in case latestLedger of
                None \<Rightarrow> None
              | Some seq \<Rightarrow>
                  Some \<lparr>schedule = sched, vestedAmount = vested,
                        releasableAmount = releasable, currentLedger = seq\<rparr>)
      | _ \<Rightarrow> None)"

section \<open>Transaction lifecycle: submit and poll\<close>

datatype GetTransactionStatus = SUCCESS | NOT_FOUND | FAILED

datatype SendTransactionStatus = PENDING | DUPLICATE | TRY_AGAIN_LATER | ERROR

record GetTransactionResponse =
  tx_status :: GetTransactionStatus
  resultXdr :: "string option"

record SendTransactionResponse =
  send_status :: SendTransactionStatus
  hash :: string
  errorResult :: "string option"

text \<open>
  The remote node is a parameter: \<open>getTransaction k\<close> is its reply to the \<open>k\<close>-th
  status query (counted from 0), \<open>Inl\<close> when the call itself rejects.  The state
  threaded through the loop counts the queries made and the milliseconds slept.
\<close>

record PollState =
  calls :: nat
  slept :: nat

definition st0 :: PollState where
  "st0 = \<lparr>calls = 0, slept = 0\<rparr>"

definition sleep :: "nat \<Rightarrow> PollState \<Rightarrow> PollState" where
  "sleep ms st = st\<lparr>slept := slept st + ms\<rparr>"

definition queried :: "PollState \<Rightarrow> PollState" where
  "queried st = st\<lparr>calls := calls st + 1\<rparr>"

text \<open>An absent optional rendered inside a template literal.\<close>

definition optional_text :: "string option \<Rightarrow> string" where
  "optional_text x = (case x of None \<Rightarrow> ''undefined'' | Some t \<Rightarrow> t)"

text \<open>
  \<open>submitTx\<close> of the vesting library: \<open>for (let i = 0; i < 30; i++)\<close>.  The
  parameter \<open>sendTransaction\<close> is the decoding of the signed XDR followed by the
  remote submission; \<open>Inl\<close> is either of them throwing.
\<close>

function submitTx_poll ::
  "(nat \<Rightarrow> js_error + GetTransactionResponse) \<Rightarrow> nat \<Rightarrow> PollState \<Rightarrow>
     (js_error + GetTransactionResponse) \<times> PollState" where
  "submitTx_poll getTransaction i st =
     (if i < 30 then
        (let st1 = sleep 2000 st; st2 = queried st1
         in case getTransaction (calls st1) of
              Inl e \<Rightarrow> (Inl e, st2)
            | Inr getResponse \<Rightarrow>
                if tx_status getResponse = SUCCESS then (Inr getResponse, st2)
                else if tx_status getResponse = FAILED
                  then (Inl (Error ''Transaction failed on-chain''), st2)
                else submitTx_poll getTransaction (i + 1) st2)
      else (Inl (Error ''Transaction timed out waiting for confirmation''), st))"
  by pat_completeness auto
termination
  by (relation "measure (\<lambda>(g, i, st). 30 - i)") auto

declare submitTx_poll.simps [simp del]

definition submitTx ::
  "(string \<Rightarrow> js_error + SendTransactionResponse) \<Rightarrow>
   (nat \<Rightarrow> js_error + GetTransactionResponse) \<Rightarrow> string \<Rightarrow>
     (js_error + GetTransactionResponse) \<times> PollState" where
  "submitTx sendTransaction getTransaction signedXdr =
     (case sendTransaction signedXdr of
        Inl e \<Rightarrow> (Inl e, st0)
      | Inr response \<Rightarrow>
          if send_status response = ERROR
            then (Inl (Error ''Transaction submission failed: ERROR''), st0)
          else submitTx_poll getTransaction 0 st0)"

text \<open>
  \<open>submitTransaction\<close> of the Stellar library: one query, then
  \<open>while (getResponse.status === "NOT_FOUND" && attempts < maxAttempts)\<close>.
\<close>

function submitTransaction_poll ::
  "(nat \<Rightarrow> js_error + GetTransactionResponse) \<Rightarrow> GetTransactionResponse \<Rightarrow> nat \<Rightarrow>
   PollState \<Rightarrow> (js_error + GetTransactionResponse) \<times> PollState" where
  "submitTransaction_poll getTransaction getResponse attempts st =
     (if tx_status getResponse = NOT_FOUND \<and> attempts < 30 then
        (let st1 = sleep 1000 st; st2 = queried st1
         in case getTransaction (calls st1) of
              Inl e \<Rightarrow> (Inl e, st2)
            | Inr next \<Rightarrow> submitTransaction_poll getTransaction next (attempts + 1) st2)
      else (Inr getResponse, st))"
  by pat_completeness auto
termination
  by (relation "measure (\<lambda>(g, r, attempts, st). 30 - attempts)") auto

declare submitTransaction_poll.simps [simp del]

definition submitTransaction ::
  "(string \<Rightarrow> js_error + SendTransactionResponse) \<Rightarrow>
   (nat \<Rightarrow> js_error + GetTransactionResponse) \<Rightarrow> string \<Rightarrow>
     (js_error + string) \<times> PollState" where
  "submitTransaction sendTransaction getTransaction signedXdr =
     (case sendTransaction signedXdr of
        Inl e \<Rightarrow> (Inl e, st0)
      | Inr result \<Rightarrow>
          if send_status result = ERROR
            then (Inl (Error (''Transaction failed: '' @ optional_text (errorResult result))), st0)
          else
            (case getTransaction (calls st0) of
               Inl e \<Rightarrow> (Inl e, queried st0)
             | Inr first \<Rightarrow>
                 (case submitTransaction_poll getTransaction first 0 (queried st0) of
                    (Inl e, st) \<Rightarrow> (Inl e, st)
                  | (Inr getResponse, st) \<Rightarrow>
                      if tx_status getResponse = NOT_FOUND
                        then (Inl (Error ''Transaction not found after polling''), st)
                      else if tx_status getResponse = FAILED
                        then (Inl (Error (''Transaction failed: '' @
                                optional_text (resultXdr getResponse))), st)
                      else (Inr (hash result), st))))"

text \<open>A node that never finds the transaction, and a submission it accepts.\<close>

definition never_found :: "nat \<Rightarrow> js_error + GetTransactionResponse" where
  "never_found k = Inr \<lparr>tx_status = NOT_FOUND, resultXdr = None\<rparr>"

definition accepted :: "string \<Rightarrow> js_error + SendTransactionResponse" where
  "accepted xdr = Inr \<lparr>send_status = PENDING, hash = ''abc'', errorResult = None\<rparr>"

section \<open>Error classifier\<close>

text \<open>
  \<open>toLowerCase\<close> on the ASCII letters; every other character is left as it is.
\<close>

definition toLowerCase_char :: "char \<Rightarrow> char" where
  "toLowerCase_char c =
     (case map_of (zip ''ABCDEFGHIJKLMNOPQRSTUVWXYZ'' ''abcdefghijklmnopqrstuvwxyz'') c of
        Some l \<Rightarrow> l
      | None \<Rightarrow> c)"

definition toLowerCase :: "string \<Rightarrow> string" where
  "toLowerCase s = map toLowerCase_char s"

fun startsWith :: "string \<Rightarrow> string \<Rightarrow> bool" where
  "startsWith s [] = True"
| "startsWith [] (p # ps) = False"
| "startsWith (c # cs) (p # ps) = (if c = p then startsWith cs ps else False)"

text \<open>\<open>s.includes(sub)\<close>: \<open>sub\<close> occurs somewhere in \<open>s\<close>.\<close>

fun includes_str :: "string \<Rightarrow> string \<Rightarrow> bool" where
  "includes_str [] sub = (sub = [])"
| "includes_str (c # cs) sub = (if startsWith (c # cs) sub then True else includes_str cs sub)"

text \<open>
  The rule table, in the order of the object literal (the order in which
  \<open>Object.entries\<close> enumerates its string keys).
\<close>

definition ERROR_MESSAGE_MAP :: "(string \<times> string) list" where
  "ERROR_MESSAGE_MAP =
    [(''already initialized'',
        ''Contract is already initialized. Check if it was deployed previously.''),
     (''insufficient balance'', ''Insufficient token balance for this operation.''),
     (''insufficient allowance'', ''Insufficient allowance approved for the spender.''),
     (''amount must be positive'', ''Amount must be greater than zero.''),
     (''max_supply exceeded'', ''Operation would exceed the maximum supply cap.''),
     (''mint would exceed max_supply'',
        ''Minting this amount would exceed the maximum supply cap.''),
     (''account is frozen'', ''The account is frozen and cannot perform transfers.''),
     (''not initialized'', ''Contract is not initialized. This token may not exist.''),
     (''no pending admin'', ''No pending admin to accept. Did you propose_admin first?''),
     (''insufficient balance to burn'', ''Cannot burn more tokens than the account holds.''),
     (''schedule already exists'', ''A vesting schedule already exists for this recipient.''),
     (''no schedule found'', ''No vesting schedule found for this recipient.''),
     (''schedule has been revoked'', ''This vesting schedule has been revoked.''),
     (''nothing to release'', ''No vested tokens are available to release.''),
     (''schedule already revoked'', ''This schedule has already been revoked.''),
     (''end_ledger must be after cliff_ledger'', ''End ledger must be after cliff ledger.''),
     (''total_amount must be positive'', ''Total amount must be greater than zero.''),
     (''Invalid Stellar public key'', ''The provided Stellar address is not valid.''),
     (''max_supply must be positive'', ''Maximum supply must be greater than zero.''),
     (''initial_supply exceeds max_supply'', ''Initial supply cannot exceed maximum supply.''),
     (''allowance would overflow'', ''Allowance amount is too large and would overflow.''),
     (''approval would exceed max_supply'',
        ''Approval amount cannot exceed the token's maximum supply.'')]"

text \<open>The \<open>for\<close> loop over the entries: the first rule whose key occurs wins.\<close>

fun firstMatch :: "string \<Rightarrow> (string \<times> string) list \<Rightarrow> string option" where
  "firstMatch lowerError [] = None"
| "firstMatch lowerError ((key, message) # rest) =
     (if includes_str lowerError (toLowerCase key) then Some message
      else firstMatch lowerError rest)"

definition parseSorobanError :: "string \<Rightarrow> string" where
  "parseSorobanError errorMessage =
     (let lowerError = toLowerCase errorMessage
      in case firstMatch lowerError ERROR_MESSAGE_MAP of
           Some message \<Rightarrow> message
         | None \<Rightarrow>
             if includes_str lowerError ''invocation failed''
               then ''Contract invocation failed. The transaction may have invalid parameters.''
             else if includes_str lowerError ''insufficient funds''
               then ''Insufficient XLM balance to pay transaction fees.''
             else if includes_str lowerError ''timeout''
               then ''The operation timed out. Please try again.''
             else if includes_str lowerError ''deadline exceeded''
               then ''Transaction deadline exceeded. Please try again.''
             else if includes_str lowerError ''build failed''
               then ''Failed to build transaction. Please check your inputs.''
             else errorMessage)"

section \<open>Pre-flight simulation\<close>

record PreflightCheckResult =
  success :: bool
  warnings :: "string list"
  errors :: "string list"
  simulationDetails :: "(string \<times> string) option"

text \<open>
  The reply of the node to \<open>simulateTransaction\<close>: an error with its diagnostic
  text, a success that may or may not carry a result payload, or a reply that is
  neither.
\<close>

datatype 'v SimulateTransactionResponse =
    SimulationErrorResponse string
  | SimulationSuccessResponse "'v option"
  | UnrecognisedResponse

definition isSimulationError :: "'v SimulateTransactionResponse \<Rightarrow> bool" where
  "isSimulationError sim = (case sim of SimulationErrorResponse e \<Rightarrow> True | _ \<Rightarrow> False)"

definition isSimulationSuccess :: "'v SimulateTransactionResponse \<Rightarrow> bool" where
  "isSimulationSuccess sim = (case sim of SimulationSuccessResponse r \<Rightarrow> True | _ \<Rightarrow> False)"

definition sim_error :: "'v SimulateTransactionResponse \<Rightarrow> string" where
  "sim_error sim = (case sim of SimulationErrorResponse e \<Rightarrow> e | _ \<Rightarrow> ''undefined'')"

definition sim_result :: "'v SimulateTransactionResponse \<Rightarrow> 'v option" where
  "sim_result sim = (case sim of SimulationSuccessResponse r \<Rightarrow> r | _ \<Rightarrow> None)"

text \<open>
  A value caught by \<open>catch (error)\<close>: an \<open>Error\<close> instance with its message, or any
  other value with its \<open>String(error)\<close> rendering.
\<close>

datatype thrown = ErrorInstance string | OtherValue string

definition caught_message :: "thrown \<Rightarrow> string" where
  "caught_message error = (case error of ErrorInstance message \<Rightarrow> message | OtherValue str \<Rightarrow> str)"

text \<open>
  \<open>simulateTransaction\<close>.  The SDK and the node are parameters: \<open>build\<close> is the
  construction of the server, contract, account and transaction from the inputs
  (it throws on a malformed contract ID, key or argument), \<open>simulate\<close> is the
  remote call (it rejects on a transport failure).  The whole body is inside
  \<open>try\<close>, so the result is always a \<open>PreflightCheckResult\<close>.
\<close>

definition simulateTransaction ::
  "(string \<Rightarrow> string \<Rightarrow> 'a list \<Rightarrow> 'cfg \<Rightarrow> string \<Rightarrow> thrown + 'tx) \<Rightarrow>
   ('cfg \<Rightarrow> 'tx \<Rightarrow> thrown + 'v SimulateTransactionResponse) \<Rightarrow>
   string \<Rightarrow> string \<Rightarrow> 'a list \<Rightarrow> 'cfg \<Rightarrow> string \<Rightarrow> PreflightCheckResult" where
  "simulateTransaction build simulate contractId method args config sourcePublicKey =
     (let catch = (\<lambda>error.
            \<lparr>success = False, warnings = [],
             errors = [parseSorobanError (caught_message error)],
             simulationDetails = None\<rparr>)
      in case build contractId method args config sourcePublicKey of
           Inl error \<Rightarrow> catch error
         | Inr tx \<Rightarrow>
             (case simulate config tx of
                Inl error \<Rightarrow> catch error
              | Inr sim \<Rightarrow>
                  if isSimulationError sim then
                    \<lparr>success = False, warnings = [],
                     errors = [parseSorobanError (sim_error sim)],
                     simulationDetails = None\<rparr>
                  else if \<not> isSimulationSuccess sim \<or> sim_result sim = None then
                    \<lparr>success = False, warnings = [],
                     errors = [''Transaction simulation failed. Please check your inputs.''],
                     simulationDetails = None\<rparr>
                  else
                    \<lparr>success = True, warnings = [], errors = [],
                     simulationDetails = None\<rparr>))"

text \<open>Collaborators for concrete runs: a build that succeeds or throws, and nodes
  that answer with a success without payload, a success with payload, or not at all.\<close>

definition build_ok :: "string \<Rightarrow> string \<Rightarrow> unit list \<Rightarrow> unit \<Rightarrow> string \<Rightarrow> thrown + unit" where
  "build_ok contractId method args config sourcePublicKey = Inr ()"

definition build_throws :: "string \<Rightarrow> string \<Rightarrow> unit list \<Rightarrow> unit \<Rightarrow> string \<Rightarrow> thrown + unit" where
  "build_throws contractId method args config sourcePublicKey =
     Inl (ErrorInstance ''Invalid contract ID'')"

definition node_no_result :: "unit \<Rightarrow> unit \<Rightarrow> thrown + unit SimulateTransactionResponse" where
  "node_no_result config tx = Inr (SimulationSuccessResponse None)"

definition node_result :: "unit \<Rightarrow> unit \<Rightarrow> thrown + unit SimulateTransactionResponse" where
  "node_result config tx = Inr (SimulationSuccessResponse (Some ()))"

text \<open>The schedule of the worked example: 1000 units, cliff at ledger 100, end at 1100.\<close>

definition example_schedule :: VestingSchedule where
  "example_schedule =
     \<lparr>recipient = ''GRECIPIENT'', totalAmount = 1000, cliffLedger = 100, endLedger = 1100,
      released = 0, revoked = False\<rparr>"

text \<open>Predicates on the collaborators, used to state what the polling loops do.\<close>

definition reports_not_found :: "(nat \<Rightarrow> js_error + GetTransactionResponse) \<Rightarrow> nat \<Rightarrow> bool" where
  "reports_not_found getTransaction k =
     (case getTransaction k of Inl e \<Rightarrow> False | Inr r \<Rightarrow> tx_status r = NOT_FOUND)"

definition accepts :: "(string \<Rightarrow> js_error + SendTransactionResponse) \<Rightarrow> string \<Rightarrow> bool" where
  "accepts sendTransaction signedXdr =
     (case sendTransaction signedXdr of Inl e \<Rightarrow> False | Inr r \<Rightarrow> send_status r \<noteq> ERROR)"

section \<open>Decimal strings\<close>

lemma digit_val_digit_char: "d < 10 \<Longrightarrow> digit_val (digit_char d) = Some d"
  by (auto simp: digit_val_def digit_char_def)

lemma digit_char_not_dot: "digit_char d \<noteq> CHR ''.''"
  by (simp add: digit_char_def)

lemma parse_digits_append:
  "parse_digits acc (s @ t) =
     (case parse_digits acc s of None \<Rightarrow> None | Some a \<Rightarrow> parse_digits a t)"
  by (induction s arbitrary: acc) (auto split: option.splits)

lemma parse_digits_digits: "parse_digits 0 (digits n) = Some n"
proof (induction n rule: digits.induct)
  case (1 n)
  show ?case
  proof (cases "n < 10")
    case True
    then show ?thesis by (simp add: digits.simps [of n] digit_val_digit_char)
  next
    case False
    with 1 have "parse_digits 0 (digits (n div 10)) = Some (n div 10)" by simp
    with False show ?thesis
      by (simp add: digits.simps [of n] parse_digits_append digit_val_digit_char)
  qed
qed

lemma parse_digits_zeros: "parse_digits 0 (replicate k (CHR ''0'') @ s) = parse_digits 0 s"
  by (induction k) (simp_all add: digit_val_def)

lemma dot_notin_digits: "CHR ''.'' \<notin> set (digits n)"
proof (induction n rule: digits.induct)
  case (1 n)
  then show ?case
    by (cases "n < 10") (simp_all add: digits.simps [of n] digit_char_not_dot [THEN not_sym])
qed

lemma length_digits_le: "n < 10 ^ d \<Longrightarrow> 0 < d \<Longrightarrow> length (digits n) \<le> d"
proof (induction n arbitrary: d rule: digits.induct)
  case (1 n)
  show ?case
  proof (cases "n < 10")
    case True
    with 1(3) show ?thesis by (simp add: digits.simps [of n])
  next
    case False
    obtain e where d: "d = Suc e" using 1(3) by (cases d) auto
    from False 1(2) d have e: "0 < e" by (cases e) auto
    from 1(2) d have "n div 10 < 10 ^ e" by (simp add: less_mult_imp_div_less mult.commute)
    with 1(1) [OF False _ e] have "length (digits (n div 10)) \<le> e" by simp
    with False d show ?thesis by (simp add: digits.simps [of n])
  qed
qed

lemma split_on_no_sep: "sep \<notin> set s \<Longrightarrow> split_on sep s = [s]"
  by (induction s) auto

lemma split_on_one_sep:
  "sep \<notin> set a \<Longrightarrow> sep \<notin> set b \<Longrightarrow> split_on sep (a @ sep # b) = [a, b]"
  by (induction a) (auto simp: split_on_no_sep)

lemma stripTrailingZeros_decomp:
  "stripTrailingZeros s @ replicate (length s - length (stripTrailingZeros s)) (CHR ''0'') = s"
proof -
  let ?P = "\<lambda>c. c = CHR ''0''"
  let ?tw = "takeWhile ?P (rev s)"
  have tw: "?tw = replicate (length ?tw) (CHR ''0'')"
    by (rule replicate_length_same [symmetric]) (auto dest: set_takeWhileD)
  have "rev s = ?tw @ dropWhile ?P (rev s)" by simp
  then have "s = rev (dropWhile ?P (rev s)) @ rev ?tw"
    by (metis rev_append rev_rev_ident)
  also have "rev ?tw = replicate (length ?tw) (CHR ''0'')"
    using tw by (metis rev_replicate)
  finally have s: "s = stripTrailingZeros s @ replicate (length ?tw) (CHR ''0'')"
    by (simp add: stripTrailingZeros_def)
  have "length s = length (stripTrailingZeros s) + length ?tw"
    using arg_cong [OF s, of length] by simp
  then have "length s - length (stripTrailingZeros s) = length ?tw" by simp
  with s show ?thesis by simp
qed

lemma set_stripTrailingZeros: "set (stripTrailingZeros s) \<subseteq> set s"
  by (auto simp: stripTrailingZeros_def dest: set_dropWhileD)

lemma length_stripTrailingZeros: "length (stripTrailingZeros s) \<le> length s"
  by (simp add: stripTrailingZeros_def length_dropWhile_le [of _ "rev s", simplified])


section \<open>Formatting and parsing amounts\<close>

lemma sdiv_nonneg: "0 \<le> (a::int) \<Longrightarrow> 0 < b \<Longrightarrow> a sdiv b = a div b"
  by (simp add: signed_divide_int_def sgn_if)

lemma smod_nonneg: "0 \<le> (a::int) \<Longrightarrow> 0 < b \<Longrightarrow> a smod b = a mod b"
  by (simp add: signed_modulo_int_def sgn_if)

lemma formatTokenAmount_nonneg:
  assumes "0 \<le> raw"
  shows "formatTokenAmount raw decimals =
     (if raw mod 10 ^ decimals = 0 then digits (nat (raw div 10 ^ decimals))
      else digits (nat (raw div 10 ^ decimals)) @ ''.'' @
           stripTrailingZeros (padStart decimals (CHR ''0'') (digits (nat (raw mod 10 ^ decimals)))))"
proof -
  have d: "(0::int) < 10 ^ decimals" by simp
  have 1: "\<not> raw div 10 ^ decimals < 0" using assms d by (simp add: pos_imp_zdiv_nonneg_iff not_less)
  have 2: "\<not> raw mod 10 ^ decimals < 0" using d by (simp add: not_less)
  show ?thesis
    using assms d 1 2
    by (simp add: formatTokenAmount_def Let_def sdiv_nonneg smod_nonneg bigint_toString_def)
qed

lemma parse_padded_fraction:
  assumes "f < 10 ^ d" "0 < d"
  shows "length (stripTrailingZeros (padStart d (CHR ''0'') (digits f))) \<le> d"
    and "parse_digits 0 (padEnd d (CHR ''0'') (stripTrailingZeros (padStart d (CHR ''0'') (digits f)))) = Some f"
    and "CHR ''.'' \<notin> set (stripTrailingZeros (padStart d (CHR ''0'') (digits f)))"
proof -
  let ?s = "padStart d (CHR ''0'') (digits f)"
  have len: "length ?s = d"
    using length_digits_le [OF assms] by (simp add: padStart_def)
  show "length (stripTrailingZeros ?s) \<le> d"
    using length_stripTrailingZeros [of ?s] len by simp
  have "padEnd d (CHR ''0'') (stripTrailingZeros ?s) = ?s"
    using stripTrailingZeros_decomp [of ?s] len by (simp add: padEnd_def)
  then show "parse_digits 0 (padEnd d (CHR ''0'') (stripTrailingZeros ?s)) = Some f"
    by (simp add: padStart_def parse_digits_zeros parse_digits_digits)
  have "CHR ''.'' \<notin> set ?s"
    using dot_notin_digits [of f] by (auto simp: padStart_def)
  then show "CHR ''.'' \<notin> set (stripTrailingZeros ?s)"
    using set_stripTrailingZeros [of ?s] by blast
qed

lemma roundtrip_vesting:
  assumes "0 \<le> raw" and "decimals \<le> 18"
  shows "parseToRaw (formatTokenAmount raw decimals) decimals = Inr raw"
proof -
  let ?D = "(10::int) ^ decimals"
  let ?w = "nat (raw div ?D)"
  let ?f = "nat (raw mod ?D)"
  have D: "0 < ?D" by simp
  have w: "int ?w = raw div ?D" using assms(1) D by (simp add: pos_imp_zdiv_nonneg_iff)
  have f: "int ?f = raw mod ?D" using D by simp
  show ?thesis
  proof (cases "raw mod ?D = 0")
    case True
    then have "raw div ?D * ?D = raw" by (metis add.right_neutral div_mult_mod_eq)
    with True w show ?thesis
      by (simp add: formatTokenAmount_nonneg [OF assms(1)] parseToRaw_def
          split_on_no_sep [OF dot_notin_digits] parse_digits_digits)
  next
    case False
    then have dpos: "0 < decimals" by (cases decimals) auto
    have "int ?f < ?D" using f D by simp
    then have flt: "?f < 10 ^ decimals" by (metis of_nat_less_iff of_nat_numeral of_nat_power)
    let ?t = "stripTrailingZeros (padStart decimals (CHR ''0'') (digits ?f))"
    note pf = parse_padded_fraction [OF flt dpos]
    have fmt: "formatTokenAmount raw decimals = digits ?w @ CHR ''.'' # ?t"
      using False by (simp add: formatTokenAmount_nonneg [OF assms(1)])
    have "raw div ?D * ?D + raw mod ?D = raw" by (rule div_mult_mod_eq)
    with w f have "int ?w * ?D + int ?f = raw" by simp
    then show ?thesis
      using pf
      by (simp add: fmt parseToRaw_def split_on_one_sep [OF dot_notin_digits pf(3)]
          parse_digits_digits not_less [symmetric])
  qed
qed



lemma digits_nonempty: "digits n \<noteq> []"
  by (subst digits.simps) simp

lemma digit_val_set_digits: "c \<in> set (digits n) \<Longrightarrow> digit_val c \<noteq> None"
proof (induction n rule: digits.induct)
  case (1 n)
  have m: "n mod 10 < 10" by simp
  show ?case
  proof (cases "n < 10")
    case True
    with 1(2) show ?thesis by (simp add: digits.simps [of n] digit_val_digit_char)
  next
    case False
    with 1 m show ?thesis
      by (auto simp: digits.simps [of n] digit_val_digit_char)
  qed
qed

lemma whitespace_not_digit: "isStrWhiteSpaceChar c \<Longrightarrow> digit_val c = None"
  by (auto simp: isStrWhiteSpaceChar_def digit_val_def)

lemma trimWhiteSpace_id:
  assumes "s \<noteq> []" "\<not> isStrWhiteSpaceChar (hd s)" "\<not> isStrWhiteSpaceChar (last s)"
  shows "trimWhiteSpace s = s"
proof -
  have 1: "dropWhile isStrWhiteSpaceChar s = s"
    using assms(1,2) by (cases s) simp_all
  have "rev s \<noteq> []" "\<not> isStrWhiteSpaceChar (hd (rev s))"
    using assms(1,3) by (simp_all add: hd_rev)
  then have "dropWhile isStrWhiteSpaceChar (rev s) = rev s"
    by (cases "rev s") simp_all
  with 1 show ?thesis by (simp add: trimWhiteSpace_def)
qed

lemma trimWhiteSpace_digits: "trimWhiteSpace (digits n) = digits n"
proof (rule trimWhiteSpace_id)
  show ne: "digits n \<noteq> []" by (rule digits_nonempty)
  have "hd (digits n) \<in> set (digits n)" "last (digits n) \<in> set (digits n)"
    using ne by simp_all
  then have "digit_val (hd (digits n)) \<noteq> None" "digit_val (last (digits n)) \<noteq> None"
    by (simp_all add: digit_val_set_digits)
  then show "\<not> isStrWhiteSpaceChar (hd (digits n))" "\<not> isStrWhiteSpaceChar (last (digits n))"
    by (auto dest: whitespace_not_digit)
qed

lemma trimWhiteSpace_minus_digits:
  "trimWhiteSpace (CHR ''-'' # digits n) = CHR ''-'' # digits n"
proof (rule trimWhiteSpace_id)
  show "CHR ''-'' # digits n \<noteq> []" by simp
  show "\<not> isStrWhiteSpaceChar (hd (CHR ''-'' # digits n))"
    by (simp add: isStrWhiteSpaceChar_def)
  have "last (digits n) \<in> set (digits n)" using digits_nonempty [of n] by simp
  then have "digit_val (last (digits n)) \<noteq> None" by (simp add: digit_val_set_digits)
  then show "\<not> isStrWhiteSpaceChar (last (CHR ''-'' # digits n))"
    using whitespace_not_digit digits_nonempty [of n] by auto
qed

lemma nonDecimalLiteral_digits: "nonDecimalLiteral (digits n) = None"
proof (cases "digits n")
  case Nil
  then show ?thesis by (simp add: nonDecimalLiteral_def)
next
  case outer: (Cons zero rest)
  show ?thesis
  proof (cases rest)
    case Nil
    with outer show ?thesis by (simp add: nonDecimalLiteral_def)
  next
    case (Cons prefix ds)
    with outer have "prefix \<in> set (digits n)" by simp
    then have "digit_val prefix \<noteq> None" by (rule digit_val_set_digits)
    then have "prefix \<notin> {CHR ''x'', CHR ''X'', CHR ''o'', CHR ''O'', CHR ''b'', CHR ''B''}"
      by (auto simp: digit_val_def)
    with Cons outer show ?thesis
      by (simp add: nonDecimalLiteral_def)
  qed
qed

lemma BigInt_of_string_toString: "BigInt_of_string (bigint_toString i) = Some i"
proof (cases "i < 0")
  case True
  then show ?thesis
    by (simp add: BigInt_of_string_def bigint_toString_def trimWhiteSpace_minus_digits
        digits_nonempty parse_digits_digits)
next
  case False
  obtain c cs where d: "digits (nat i) = c # cs"
    using digits_nonempty [of "nat i"] by (cases "digits (nat i)") auto
  then have "digit_val c \<noteq> None"
    using digit_val_set_digits [of c "nat i"] by simp
  then have "c \<noteq> CHR ''-''" "c \<noteq> CHR ''+''"
    by (auto simp: digit_val_def)
  moreover have "parse_digits 0 (c # cs) = Some (nat i)"
    using parse_digits_digits [of "nat i"] d by simp
  moreover have "nonDecimalLiteral (c # cs) = None"
    using nonDecimalLiteral_digits [of "nat i"] d by simp
  moreover have "trimWhiteSpace (c # cs) = c # cs"
    using trimWhiteSpace_digits [of "nat i"] d by simp
  ultimately show ?thesis
    using False d by (simp add: BigInt_of_string_def bigint_toString_def)
qed

lemma BigInt_of_string_examples:
  "BigInt_of_string '' 12 '' = Some 12"
  "BigInt_of_string ''0x1F'' = Some 31"
  "BigInt_of_string ''0b101'' = Some 5"
  "BigInt_of_string ''-0x10'' = None"
  "BigInt_of_string ''0b'' = None"
  "BigInt_of_string [] = Some 0"
  "BigInt_of_string ''1,000'' = None"
  by (simp_all add: BigInt_of_string_def trimWhiteSpace_def isStrWhiteSpaceChar_def
      nonDecimalLiteral_def radix_digit_val_def digit_val_def)

lemma toString_not_sentinel: "bigint_toString i \<noteq> ''N/A''"
proof
  assume a: "bigint_toString i = ''N/A''"
  show False
  proof (cases "i < 0")
    case True
    with a show False by (simp add: bigint_toString_def)
  next
    case False
    with a have "CHR ''N'' \<in> set (digits (nat i))" by (simp add: bigint_toString_def)
    then show False using digit_val_set_digits by (fastforce simp: digit_val_def)
  qed
qed

lemma formatTokenAmount_stellar_nonneg:
  assumes "0 \<le> raw"
  shows "formatTokenAmount_stellar loc (bigint_toString raw) decimals =
     Inr (if raw mod 10 ^ decimals = 0 then loc (raw div 10 ^ decimals)
          else loc (raw div 10 ^ decimals) @ ''.'' @
               stripTrailingZeros (padStart decimals (CHR ''0'')
                 (digits (nat (raw mod 10 ^ decimals)))))"
proof -
  have d: "(0::int) < 10 ^ decimals" by simp
  have "\<not> raw mod 10 ^ decimals < 0" using d by (simp add: not_less)
  then have f: "bigint_toString (raw mod 10 ^ decimals) = digits (nat (raw mod 10 ^ decimals))"
    by (simp add: bigint_toString_def)
  show ?thesis
    using assms d
    by (simp add: formatTokenAmount_stellar_def toString_not_sentinel BigInt_of_string_toString
        Let_def sdiv_nonneg smod_nonneg f)
qed

lemma toLocaleString_enUS_small:
  "0 \<le> w \<Longrightarrow> w < 1000 \<Longrightarrow> toLocaleString_enUS w = bigint_toString w"
  by (simp add: toLocaleString_enUS_def bigint_toString_def groupDigits.simps)

lemma stellar_agrees_when_ungrouped:
  assumes "0 \<le> raw" and "loc (raw div 10 ^ decimals) = bigint_toString (raw div 10 ^ decimals)"
  shows "formatTokenAmount_stellar loc (bigint_toString raw) decimals =
           Inr (formatTokenAmount raw decimals)"
proof -
  have "\<not> raw div 10 ^ decimals < 0"
    using assms(1) by (simp add: pos_imp_zdiv_nonneg_iff not_less)
  then have "loc (raw div 10 ^ decimals) = digits (nat (raw div 10 ^ decimals))"
    using assms(2) by (simp add: bigint_toString_def)
  then show ?thesis
    by (simp add: formatTokenAmount_stellar_nonneg [OF assms(1)]
        formatTokenAmount_nonneg [OF assms(1)])
qed

section \<open>Combining the halves of a 128-bit integer\<close>

lemma shift_or_eq_add:
  "push_bit 64 (a::int) OR uint (l :: 64 word) = a * 2 ^ 64 + uint l"
proof -
  have "push_bit 64 a OR uint l = concat_bit 64 (uint l) a"
    by (simp add: concat_bit_def take_bit_int_eq_self uint_lt2p [of l, simplified] or.commute)
  also have "\<dots> = take_bit 64 (uint l) + push_bit 64 a" by (rule concat_bit_eq)
  finally show ?thesis
    by (simp add: push_bit_eq_mult take_bit_int_eq_self uint_lt2p [of l, simplified])
qed

lemma sint_word_cat_64:
  "sint (word_cat (h :: 64 word) (l :: 64 word) :: 128 word) = sint h * 2 ^ 64 + uint l"
proof -
  have "sint (word_cat h l :: 128 word) = concat_bit 64 (uint l) (sint h)"
    apply transfer
    apply (rule bit_eqI)
    apply (auto simp: bit_simps min_def)
    done
  also have "\<dots> = take_bit 64 (uint l) + push_bit 64 (sint h)" by (rule concat_bit_eq)
  finally show ?thesis
    by (simp add: push_bit_eq_mult take_bit_int_eq_self uint_lt2p [of l, simplified])
qed

section \<open>Claims about AmountMath and ValueCodec\<close>

lemma replicate_numeral: "replicate (numeral k) x = x # replicate (pred_numeral k) x"
  by (simp add: numeral_eq_Suc)

lemmas amount_eval = formatTokenAmount_def formatTokenAmount_stellar_def bigint_toString_def
  digits.simps digit_char_def padStart_def stripTrailingZeros_def Let_def
  signed_divide_int_def signed_modulo_int_def toLocaleString_enUS_def groupDigits.simps
  BigInt_of_string_def trimWhiteSpace_def isStrWhiteSpaceChar_def nonDecimalLiteral_def
  digit_val_def replicate_numeral parseToRaw_def padEnd_def

lemma div_less_when_less_mult:
  fixes a b c :: int
  assumes "a < c * b" and "0 < b"
  shows "a div b < c"
proof (rule ccontr)
  assume "\<not> a div b < c"
  then have "c * b \<le> a div b * b"
    using assms(2) by (simp add: mult_right_mono)
  moreover have "a div b * b \<le> a"
    using div_mult_mod_eq [of a b] pos_mod_sign [OF assms(2), of a] by linarith
  ultimately show False using assms(1) by linarith
qed

text \<open>
  Claim C1 (round-trip law), as the code has it.  For every non-negative \<open>raw\<close> and
  \<open>decimals\<close> in \<open>[0, 18]\<close>, parsing the string produced by \<open>formatTokenAmount\<close>
  of the vesting library gives \<open>raw\<close> again.  The Stellar-library variant renders the
  whole part with \<open>toLocaleString\<close>; under \<open>en-US\<close> grouping the law holds for it
  as long as the whole part is below one thousand, where no separator is inserted.
\<close>

theorem C1_roundtrip:
  assumes "0 \<le> raw" and "decimals \<le> 18"
  shows "parseToRaw (formatTokenAmount raw decimals) decimals = Inr raw \<and>
         (raw < 1000 * 10 ^ decimals \<longrightarrow>
            (\<exists>s. formatTokenAmount_stellar toLocaleString_enUS (bigint_toString raw) decimals = Inr s
                 \<and> parseToRaw s decimals = Inr raw))"
proof (intro conjI impI)
  show rt: "parseToRaw (formatTokenAmount raw decimals) decimals = Inr raw"
    using assms by (rule roundtrip_vesting)
  assume "raw < 1000 * 10 ^ decimals"
  then have "raw div 10 ^ decimals < 1000"
    by (rule div_less_when_less_mult) simp
  moreover have "0 \<le> raw div 10 ^ decimals"
    using assms(1) by (simp add: pos_imp_zdiv_nonneg_iff)
  ultimately have "toLocaleString_enUS (raw div 10 ^ decimals) = bigint_toString (raw div 10 ^ decimals)"
    by (simp add: toLocaleString_enUS_small)
  with assms(1) have "formatTokenAmount_stellar toLocaleString_enUS (bigint_toString raw) decimals =
      Inr (formatTokenAmount raw decimals)"
    by (rule stellar_agrees_when_ungrouped)
  with rt show "\<exists>s. formatTokenAmount_stellar toLocaleString_enUS (bigint_toString raw) decimals = Inr s
                 \<and> parseToRaw s decimals = Inr raw"
    by simp
qed

theorem C1_witness:
  "(0::int) \<le> 12345000 \<and> (7::nat) \<le> 18 \<and> parseToRaw (formatTokenAmount 12345000 7) 7 = Inr 12345000"
  using C1_roundtrip [of 12345000 7] by simp

text \<open>
  With \<open>en-US\<close> grouping the Stellar-library variant renders \<open>10000000000\<close> at seven
  decimals as \<open>1,000\<close>, which does not parse back.
\<close>

theorem C1_counterexample:
  "formatTokenAmount_stellar toLocaleString_enUS (bigint_toString 10000000000) 7 = Inr ''1,000''
   \<and> parseToRaw ''1,000'' 7 \<noteq> Inr 10000000000"
  by (simp add: amount_eval)

text \<open>
  Claim C2 (display format), as the code has it.  For non-negative \<open>raw\<close> both
  variants divide by \<open>10^decimals\<close>, pad the remainder to \<open>decimals\<close> digits, strip
  trailing zeros and return only the whole part when the remainder is zero.  The
  vesting-library variant renders the whole part with \<open>toString\<close>: \<open>0\<close> gives
  \<open>"0"\<close> and \<open>10000000000\<close> gives \<open>"1000"\<close> at seven decimals.  The Stellar-library
  variant renders the whole part with \<open>toLocaleString\<close>: at seven decimals it
  returns the locale's rendering of \<open>0\<close> and of \<open>1000\<close>, which is \<open>"0"\<close> and
  \<open>"1,000"\<close> under \<open>en-US\<close> grouping, and \<open>"0"\<close> and \<open>"1000"\<close> where the rendering
  is that of \<open>toString\<close>.
\<close>

theorem C2_format:
  assumes "0 \<le> raw"
  shows "formatTokenAmount raw decimals =
           (if raw mod 10 ^ decimals = 0 then digits (nat (raw div 10 ^ decimals))
            else digits (nat (raw div 10 ^ decimals)) @ ''.'' @
                 stripTrailingZeros (padStart decimals (CHR ''0'')
                   (digits (nat (raw mod 10 ^ decimals)))))
       \<and> formatTokenAmount_stellar loc (bigint_toString raw) decimals =
           Inr (if raw mod 10 ^ decimals = 0 then loc (raw div 10 ^ decimals)
                else loc (raw div 10 ^ decimals) @ ''.'' @
                     stripTrailingZeros (padStart decimals (CHR ''0'')
                       (digits (nat (raw mod 10 ^ decimals)))))
       \<and> formatTokenAmount 0 7 = ''0''
       \<and> formatTokenAmount 10000000000 7 = ''1000''
       \<and> formatTokenAmount_stellar loc ''0'' 7 = Inr (loc 0)
       \<and> formatTokenAmount_stellar loc ''10000000000'' 7 = Inr (loc 1000)
       \<and> formatTokenAmount_stellar toLocaleString_enUS ''0'' 7 = Inr ''0''
       \<and> formatTokenAmount_stellar toLocaleString_enUS ''10000000000'' 7 = Inr ''1,000''
       \<and> formatTokenAmount_stellar bigint_toString ''0'' 7 = Inr ''0''
       \<and> formatTokenAmount_stellar bigint_toString ''10000000000'' 7 = Inr ''1000''"
proof (intro conjI)
  show "formatTokenAmount 0 7 = ''0''" by (simp add: amount_eval)
  show "formatTokenAmount 10000000000 7 = ''1000''" by (simp add: amount_eval)
  show "formatTokenAmount_stellar loc ''0'' 7 = Inr (loc 0)"
    by (simp add: formatTokenAmount_stellar_def Let_def BigInt_of_string_def trimWhiteSpace_def
        isStrWhiteSpaceChar_def nonDecimalLiteral_def digit_val_def)
  show "formatTokenAmount_stellar loc ''10000000000'' 7 = Inr (loc 1000)"
    by (simp add: formatTokenAmount_stellar_def Let_def BigInt_of_string_def trimWhiteSpace_def
        isStrWhiteSpaceChar_def nonDecimalLiteral_def digit_val_def signed_divide_int_def
        signed_modulo_int_def)
  show "formatTokenAmount_stellar toLocaleString_enUS ''0'' 7 = Inr ''0''" by (simp add: amount_eval)
  show "formatTokenAmount_stellar toLocaleString_enUS ''10000000000'' 7 = Inr ''1,000''"
    by (simp add: amount_eval)
  show "formatTokenAmount_stellar bigint_toString ''0'' 7 = Inr ''0''" by (simp add: amount_eval)
  show "formatTokenAmount_stellar bigint_toString ''10000000000'' 7 = Inr ''1000''"
    by (simp add: amount_eval)
qed (use assms in \<open>simp_all only: formatTokenAmount_nonneg formatTokenAmount_stellar_nonneg\<close>)

theorem C2_witness:
  "(0::int) \<le> 12345000 \<and> formatTokenAmount 12345000 7 = ''1.2345''"
  using C2_format [of 12345000 7] by (simp add: amount_eval)

text \<open>The Stellar-library variant under \<open>en-US\<close> does not return \<open>"1000"\<close>.\<close>

theorem C2_counterexample:
  "formatTokenAmount_stellar toLocaleString_enUS ''10000000000'' 7 \<noteq> Inr ''1000''"
  by (simp add: amount_eval)

text \<open>
  Claim C3.  Decoding \<open>I128{hi, lo}\<close> gives exactly the signed value of the 128-bit
  word whose upper half is \<open>hi\<close> and lower half is \<open>lo\<close>, that is
  \<open>hi * 2^64 + lo\<close> with \<open>hi\<close> signed and \<open>lo\<close> unsigned, on unbounded integers;
  the variant with \<open>+\<close> returns the decimal string of the value the variant with
  \<open>|\<close> returns, on every input; \<open>{hi: 0, lo: 500}\<close> decodes to \<open>500\<close>.
\<close>

theorem C3_decodeI128:
  "decodeI128 (ScvI128 hi lo) = Inr (sint (word_cat hi lo :: 128 word))
   \<and> decodeI128 (ScvI128 hi lo) = Inr (sint hi * 2 ^ 64 + uint lo)
   \<and> decodeI128_stellar v = map_sum id bigint_toString (decodeI128 v)
   \<and> decodeI128 (ScvI128 0 500) = Inr 500"
proof (intro conjI)
  show "decodeI128 (ScvI128 hi lo) = Inr (sint hi * 2 ^ 64 + uint lo)"
    by (simp add: decodeI128_def shift_or_eq_add)
  then show "decodeI128 (ScvI128 hi lo) = Inr (sint (word_cat hi lo :: 128 word))"
    by (simp add: sint_word_cat_64)
  show "decodeI128_stellar v = map_sum id bigint_toString (decodeI128 v)"
    unfolding decodeI128_def decodeI128_stellar_def shift_or_eq_add
    by (cases v) (simp_all add: BigInt_of_string_toString push_bit_eq_mult)
  show "decodeI128 (ScvI128 0 500) = Inr 500"
    by (simp add: decodeI128_def shift_or_eq_add)
qed

section \<open>Claims about vesting\<close>

lemma floor_div_nat: "\<lfloor>real_of_int a / real n\<rfloor> = a div int n"
  using floor_divide_of_int_eq [of a "int n"] by simp

lemma product_fits_160:
  fixes total :: int and delta :: nat
  assumes "- (2 ^ 127) \<le> total" "total < 2 ^ 127" "delta < 2 ^ 32"
  shows "\<bar>total * int delta\<bar> < 2 ^ 159"
proof -
  have a: "\<bar>total\<bar> \<le> 2 ^ 127" using assms(1,2) by (simp add: abs_le_iff)
  have "int delta < 2 ^ 32" using assms(3) by (metis of_nat_less_iff of_nat_numeral of_nat_power)
  then have d: "int delta \<le> 2 ^ 32 - 1" by simp
  have "\<bar>total * int delta\<bar> = \<bar>total\<bar> * int delta" by (simp add: abs_mult)
  also have "\<dots> \<le> 2 ^ 127 * (2 ^ 32 - 1)"
    using a d by (intro mult_mono) simp_all
  also have "\<dots> < 2 ^ 159" by simp
  finally show ?thesis .
qed

text \<open>
  Claim C4.  For a schedule with \<open>cliffLedger \<le> endLedger\<close> the vested amount is \<open>0\<close>
  before the cliff, \<open>totalAmount\<close> from the end ledger on, and in between the floor of
  \<open>totalAmount * (currentLedger - cliffLedger) / (endLedger - cliffLedger)\<close>, taken on
  the exact product; for a 128-bit total and 32-bit ledgers that product stays
  below \<open>2^159\<close> in magnitude.  The schedule \<open>{total=1000, cliff=100, end=1100}\<close>
  gives \<open>0\<close>, \<open>500\<close>, \<open>1000\<close>, \<open>1000\<close> at ledgers \<open>100\<close>, \<open>600\<close>, \<open>1100\<close>, \<open>1200\<close>.
\<close>

theorem C4_vested_amount:
  assumes "cliffLedger s \<le> endLedger s"
  shows "(ledger < cliffLedger s \<longrightarrow> vested_amount s ledger = 0)
       \<and> (endLedger s \<le> ledger \<longrightarrow> vested_amount s ledger = totalAmount s)
       \<and> (cliffLedger s \<le> ledger \<and> ledger < endLedger s \<longrightarrow>
            vested_amount s ledger =
              \<lfloor>real_of_int (totalAmount s * int (ledger - cliffLedger s)) /
                real (endLedger s - cliffLedger s)\<rfloor>)
       \<and> (- (2 ^ 127) \<le> totalAmount s \<and> totalAmount s < 2 ^ 127 \<and> ledger < 2 ^ 32 \<longrightarrow>
            \<bar>totalAmount s * int (ledger - cliffLedger s)\<bar> < 2 ^ 159)
       \<and> vested_amount example_schedule 100 = 0
       \<and> vested_amount example_schedule 600 = 500
       \<and> vested_amount example_schedule 1100 = 1000
       \<and> vested_amount example_schedule 1200 = 1000"
proof (intro conjI impI)
  show "vested_amount s ledger = 0" if "ledger < cliffLedger s"
    using that by (simp add: vested_amount_def)
  show "vested_amount s ledger = totalAmount s" if "endLedger s \<le> ledger"
    using that assms by (simp add: vested_amount_def)
  show "vested_amount s ledger =
          \<lfloor>real_of_int (totalAmount s * int (ledger - cliffLedger s)) /
            real (endLedger s - cliffLedger s)\<rfloor>"
    if "cliffLedger s \<le> ledger \<and> ledger < endLedger s"
    using that by (simp only: floor_div_nat) (simp add: vested_amount_def)
  show "\<bar>totalAmount s * int (ledger - cliffLedger s)\<bar> < 2 ^ 159"
    if "- (2 ^ 127) \<le> totalAmount s \<and> totalAmount s < 2 ^ 127 \<and> ledger < 2 ^ 32"
    using that by (intro product_fits_160) (auto intro: le_less_trans [OF diff_le_self])
qed (simp_all add: vested_amount_def example_schedule_def)

theorem C4_witness:
  "cliffLedger example_schedule \<le> endLedger example_schedule
   \<and> vested_amount example_schedule 1200 = totalAmount example_schedule
   \<and> vested_amount example_schedule 50 = 0"
  using C4_vested_amount [of example_schedule 1200] C4_vested_amount [of example_schedule 50]
  by (simp add: example_schedule_def)

text \<open>
  Claim C5, as the code has it.  \<open>fetchVestingInfo\<close> returns
  \<open>vestedAmount - released\<close> as the releasable amount, without clamping: it equals
  \<open>max(0, vestedAmount - released)\<close> whenever \<open>released \<le> vestedAmount\<close> and is
  negative otherwise.
\<close>

theorem C5_releasable:
  assumes "fetchVestingInfo (Some sched) (Some vested) (Some seq) = Some info"
  shows "releasableAmount info = vested - released sched
       \<and> (released sched \<le> vested \<longrightarrow> releasableAmount info = max 0 (vested - released sched))
       \<and> (vested < released sched \<longrightarrow> releasableAmount info < 0)"
  using assms by (auto simp: fetchVestingInfo_def Let_def)

theorem C5_witness:
  "fetchVestingInfo (Some example_schedule) (Some 500) (Some 600) =
     Some \<lparr>schedule = example_schedule, vestedAmount = 500, releasableAmount = 500,
           currentLedger = 600\<rparr>
   \<and> releasableAmount \<lparr>schedule = example_schedule, vestedAmount = 500, releasableAmount = 500,
           currentLedger = 600\<rparr> = max 0 (500 - released example_schedule)"
  using C5_releasable [of example_schedule 500 600
      "\<lparr>schedule = example_schedule, vestedAmount = 500, releasableAmount = 500,
        currentLedger = 600\<rparr>"]
  by (simp add: fetchVestingInfo_def example_schedule_def)

text \<open>With 600 released and 500 vested the releasable amount is \<open>-100\<close>, not \<open>0\<close>.\<close>

theorem C5_counterexample:
  "map_option releasableAmount
     (fetchVestingInfo (Some (example_schedule\<lparr>released := 600\<rparr>)) (Some 500) (Some 600))
     = Some (- 100)
   \<and> map_option releasableAmount
     (fetchVestingInfo (Some (example_schedule\<lparr>released := 600\<rparr>)) (Some 500) (Some 600))
     \<noteq> Some (max 0 (500 - released (example_schedule\<lparr>released := 600\<rparr>)))"
  by (simp add: fetchVestingInfo_def example_schedule_def)

section \<open>Claims about the polling loops\<close>

lemma submitTx_poll_bounds:
  "calls st \<le> calls (snd (submitTx_poll g i st))
   \<and> calls (snd (submitTx_poll g i st)) \<le> calls st + (30 - i)
   \<and> slept (snd (submitTx_poll g i st)) =
       slept st + 2000 * (calls (snd (submitTx_poll g i st)) - calls st)"
proof (induction g i st rule: submitTx_poll.induct)
  case (1 g i st)
  show ?case
  proof (cases "i < 30")
    case False
    then show ?thesis by (simp add: submitTx_poll.simps [of g i st])
  next
    case True
    show ?thesis
    proof (cases "g (calls st)")
      case (Inl e)
      with True show ?thesis
        by (simp add: submitTx_poll.simps [of g i st] sleep_def queried_def)
    next
      case (Inr r)
      show ?thesis
      proof (cases "tx_status r")
        case NOT_FOUND
        have ih: "calls (queried (sleep 2000 st)) \<le> calls (snd (submitTx_poll g (i + 1) (queried (sleep 2000 st))))
          \<and> calls (snd (submitTx_poll g (i + 1) (queried (sleep 2000 st)))) \<le> calls (queried (sleep 2000 st)) + (30 - (i + 1))
          \<and> slept (snd (submitTx_poll g (i + 1) (queried (sleep 2000 st)))) =
              slept (queried (sleep 2000 st)) + 2000 * (calls (snd (submitTx_poll g (i + 1) (queried (sleep 2000 st)))) - calls (queried (sleep 2000 st)))"
          using True Inr NOT_FOUND
          by (intro "1.IH" [of "sleep 2000 st" "queried (sleep 2000 st)" r]) (simp_all add: sleep_def)
        have eq: "submitTx_poll g i st = submitTx_poll g (i + 1) (queried (sleep 2000 st))"
          using True Inr NOT_FOUND
          by (simp add: submitTx_poll.simps [of g i st] sleep_def queried_def)
        from ih True show ?thesis
          unfolding eq by (auto simp: sleep_def queried_def)
      qed (use True Inr in \<open>simp_all add: submitTx_poll.simps [of g i st] sleep_def queried_def\<close>)
    qed
  qed
qed

lemma submitTx_poll_step:
  assumes "i < 30" "g (calls st) = Inr r" "tx_status r = NOT_FOUND"
  shows "submitTx_poll g i st = submitTx_poll g (i + 1) (queried (sleep 2000 st))"
  using assms by (simp add: submitTx_poll.simps [of g i st] sleep_def queried_def)

lemma submitTx_poll_skip:
  assumes "\<forall>k<n. reports_not_found g k" "n \<le> 30"
  shows "submitTx_poll g 0 st0 = submitTx_poll g n \<lparr>calls = n, slept = 2000 * n\<rparr>"
  using assms
proof (induction n)
  case 0
  then show ?case by (simp add: st0_def)
next
  case (Suc n)
  then have ih: "submitTx_poll g 0 st0 = submitTx_poll g n \<lparr>calls = n, slept = 2000 * n\<rparr>"
    by simp
  from Suc.prems have "reports_not_found g n" by simp
  then obtain r where r: "g n = Inr r" "tx_status r = NOT_FOUND"
    by (auto simp: reports_not_found_def split: sum.splits)
  have "submitTx_poll g n \<lparr>calls = n, slept = 2000 * n\<rparr> =
        submitTx_poll g (n + 1) (queried (sleep 2000 \<lparr>calls = n, slept = 2000 * n\<rparr>))"
    using Suc.prems r by (intro submitTx_poll_step [where r = r]) simp_all
  with ih show ?case by (simp add: sleep_def queried_def add.commute)
qed

lemma submitTx_poll_exhausted:
  assumes "\<forall>k<30. reports_not_found g k"
  shows "submitTx_poll g 0 st0 =
           (Inl (Error ''Transaction timed out waiting for confirmation''),
            \<lparr>calls = 30, slept = 60000\<rparr>)"
  using submitTx_poll_skip [OF assms, simplified]
  by (simp add: submitTx_poll.simps [of g 30])

lemma submitTx_poll_terminal:
  assumes "\<forall>k<n. reports_not_found g k" "n < 30" "g n = Inr r"
  shows "tx_status r = SUCCESS \<Longrightarrow>
           submitTx_poll g 0 st0 = (Inr r, \<lparr>calls = n + 1, slept = 2000 * (n + 1)\<rparr>)"
    and "tx_status r = FAILED \<Longrightarrow>
           submitTx_poll g 0 st0 =
             (Inl (Error ''Transaction failed on-chain''),
              \<lparr>calls = n + 1, slept = 2000 * (n + 1)\<rparr>)"
  using submitTx_poll_skip [OF assms(1)] assms(2,3)
  by (simp_all add: submitTx_poll.simps [of g n] sleep_def queried_def)


lemma submitTransaction_poll_stop:
  "tx_status r \<noteq> NOT_FOUND \<or> \<not> a < 30 \<Longrightarrow> submitTransaction_poll g r a st = (Inr r, st)"
  by (subst submitTransaction_poll.simps) auto

lemma submitTransaction_poll_bounds:
  "calls st \<le> calls (snd (submitTransaction_poll g r a st))
   \<and> calls (snd (submitTransaction_poll g r a st)) \<le> calls st + (30 - a)
   \<and> slept (snd (submitTransaction_poll g r a st)) =
       slept st + 1000 * (calls (snd (submitTransaction_poll g r a st)) - calls st)"
proof (induction g r a st rule: submitTransaction_poll.induct)
  case (1 g r a st)
  show ?case
  proof (cases "tx_status r = NOT_FOUND \<and> a < 30")
    case False
    then show ?thesis by (simp add: submitTransaction_poll_stop)
  next
    case True
    show ?thesis
    proof (cases "g (calls st)")
      case (Inl e)
      with True show ?thesis
        by (auto simp: submitTransaction_poll.simps [of g r a st] sleep_def queried_def)
    next
      case (Inr r')
      have ih: "calls (queried (sleep 1000 st)) \<le> calls (snd (submitTransaction_poll g r' (a + 1) (queried (sleep 1000 st))))
          \<and> calls (snd (submitTransaction_poll g r' (a + 1) (queried (sleep 1000 st)))) \<le> calls (queried (sleep 1000 st)) + (30 - (a + 1))
          \<and> slept (snd (submitTransaction_poll g r' (a + 1) (queried (sleep 1000 st)))) =
              slept (queried (sleep 1000 st)) + 1000 * (calls (snd (submitTransaction_poll g r' (a + 1) (queried (sleep 1000 st)))) - calls (queried (sleep 1000 st)))"
        using True Inr
        by (intro "1.IH" [of "sleep 1000 st" "queried (sleep 1000 st)" r']) (simp_all add: sleep_def)
      have eq: "submitTransaction_poll g r a st =
                submitTransaction_poll g r' (a + 1) (queried (sleep 1000 st))"
        using True Inr
        by (simp add: submitTransaction_poll.simps [of g r a st] sleep_def queried_def)
      from ih True show ?thesis
        unfolding eq by (auto simp: sleep_def queried_def)
    qed
  qed
qed

lemma submitTransaction_poll_step:
  assumes "tx_status r = NOT_FOUND" "a < 30" "g (calls st) = Inr r'"
  shows "submitTransaction_poll g r a st =
         submitTransaction_poll g r' (a + 1) (queried (sleep 1000 st))"
  using assms by (simp add: submitTransaction_poll.simps [of g r a st] sleep_def queried_def)

lemma submitTransaction_poll_skip:
  assumes "\<forall>k\<le>n. reports_not_found g k" "n \<le> 30" "g 0 = Inr first"
  shows "\<exists>r. g n = Inr r \<and>
           submitTransaction_poll g first 0 (queried st0) =
           submitTransaction_poll g r n \<lparr>calls = n + 1, slept = 1000 * n\<rparr>"
  using assms
proof (induction n)
  case 0
  then show ?case by (simp add: st0_def queried_def)
next
  case (Suc n)
  then obtain r where r: "g n = Inr r"
    and ih: "submitTransaction_poll g first 0 (queried st0) =
             submitTransaction_poll g r n \<lparr>calls = n + 1, slept = 1000 * n\<rparr>"
    by auto
  from Suc.prems have "reports_not_found g n" "reports_not_found g (Suc n)" by simp_all
  with r obtain r' where r': "tx_status r = NOT_FOUND" "g (Suc n) = Inr r'"
    by (auto simp: reports_not_found_def split: sum.splits)
  have "submitTransaction_poll g r n \<lparr>calls = n + 1, slept = 1000 * n\<rparr> =
        submitTransaction_poll g r' (n + 1) (queried (sleep 1000 \<lparr>calls = n + 1, slept = 1000 * n\<rparr>))"
    using Suc.prems r' by (intro submitTransaction_poll_step) simp_all
  with ih r' show ?case by (simp add: sleep_def queried_def add.commute)
qed

lemma submitTransaction_poll_exhausted:
  assumes "\<forall>k\<le>30. reports_not_found g k" "g 0 = Inr first"
  shows "\<exists>r. tx_status r = NOT_FOUND \<and>
           submitTransaction_poll g first 0 (queried st0) =
             (Inr r, \<lparr>calls = 31, slept = 30000\<rparr>)"
proof -
  from submitTransaction_poll_skip [OF assms(1) _ assms(2)]
  obtain r where r: "g 30 = Inr r"
    "submitTransaction_poll g first 0 (queried st0) =
       submitTransaction_poll g r 30 \<lparr>calls = 30 + 1, slept = 1000 * 30\<rparr>"
    by auto
  from assms(1) have "reports_not_found g 30" by simp
  with r(1) have "tx_status r = NOT_FOUND" by (simp add: reports_not_found_def)
  with r(2) show ?thesis
    by (simp add: submitTransaction_poll_stop)
qed

lemma submitTransaction_poll_terminal:
  assumes "\<forall>k<n. reports_not_found g k" "n \<le> 30" "g 0 = Inr first" "g n = Inr r"
    "tx_status r \<noteq> NOT_FOUND"
  shows "submitTransaction_poll g first 0 (queried st0) =
           (Inr r, \<lparr>calls = n + 1, slept = 1000 * n\<rparr>)"
proof (cases n)
  case 0
  with assms show ?thesis
    by (simp add: submitTransaction_poll_stop queried_def st0_def)
next
  case (Suc m)
  with assms(1) have nf: "\<forall>k\<le>m. reports_not_found g k" by auto
  from submitTransaction_poll_skip [OF nf _ assms(3)] Suc assms(2)
  obtain r0 where r0: "g m = Inr r0"
    "submitTransaction_poll g first 0 (queried st0) =
       submitTransaction_poll g r0 m \<lparr>calls = m + 1, slept = 1000 * m\<rparr>"
    by auto
  from nf have "reports_not_found g m" by simp
  with r0(1) have nf0: "tx_status r0 = NOT_FOUND" by (simp add: reports_not_found_def)
  have "submitTransaction_poll g r0 m \<lparr>calls = m + 1, slept = 1000 * m\<rparr> =
        submitTransaction_poll g r (m + 1) (queried (sleep 1000 \<lparr>calls = m + 1, slept = 1000 * m\<rparr>))"
    using nf0 Suc assms(2,4) by (intro submitTransaction_poll_step) simp_all
  also have "\<dots> = (Inr r, queried (sleep 1000 \<lparr>calls = m + 1, slept = 1000 * m\<rparr>))"
    using assms(5) by (simp add: submitTransaction_poll_stop)
  finally show ?thesis using r0(2) Suc by (simp add: sleep_def queried_def add.commute)
qed


lemma submitTx_bounds:
  "calls (snd (submitTx send g x)) \<le> 30
   \<and> slept (snd (submitTx send g x)) = 2000 * calls (snd (submitTx send g x))"
  using submitTx_poll_bounds [of st0 g 0]
  by (auto simp: submitTx_def st0_def split: sum.splits)

lemma submitTransaction_bounds:
  "calls (snd (submitTransaction send g x)) \<le> 31
   \<and> slept (snd (submitTransaction send g x)) =
       1000 * (calls (snd (submitTransaction send g x)) - 1)"
proof -
  have "snd (submitTransaction send g x) = st0
      \<or> snd (submitTransaction send g x) = queried st0
      \<or> (\<exists>first. snd (submitTransaction send g x) =
             snd (submitTransaction_poll g first 0 (queried st0)))"
    by (auto simp: submitTransaction_def split: sum.splits prod.splits) (metis snd_conv)+
  then show ?thesis
    using submitTransaction_poll_bounds [of "queried st0" g _ 0]
    by (auto simp: st0_def queried_def)
qed

lemma submitTx_accepted:
  "accepts send x \<Longrightarrow> submitTx send g x = submitTx_poll g 0 st0"
  by (auto simp: accepts_def submitTx_def split: sum.splits)

lemma submitTransaction_terminal:
  assumes "send x = Inr resp" "send_status resp \<noteq> ERROR" "n \<le> 30"
    "\<forall>k<n. reports_not_found g k" "g n = Inr r"
  shows "tx_status r = SUCCESS \<Longrightarrow>
           submitTransaction send g x = (Inr (hash resp), \<lparr>calls = n + 1, slept = 1000 * n\<rparr>)"
    and "tx_status r = FAILED \<Longrightarrow>
           submitTransaction send g x =
             (Inl (Error (''Transaction failed: '' @ optional_text (resultXdr r))),
              \<lparr>calls = n + 1, slept = 1000 * n\<rparr>)"
proof -
  obtain first where first: "g 0 = Inr first"
  proof (cases n)
    case 0
    with assms(5) that show ?thesis by simp
  next
    case (Suc m)
    with assms(4) have "reports_not_found g 0" by simp
    with that show ?thesis by (auto simp: reports_not_found_def split: sum.splits)
  qed
  have poll: "tx_status r \<noteq> NOT_FOUND \<Longrightarrow>
      submitTransaction_poll g first 0 (queried st0) =
        (Inr r, \<lparr>calls = n + 1, slept = 1000 * n\<rparr>)"
    using submitTransaction_poll_terminal [OF assms(4) assms(3) first assms(5)] .
  show "tx_status r = SUCCESS \<Longrightarrow>
           submitTransaction send g x = (Inr (hash resp), \<lparr>calls = n + 1, slept = 1000 * n\<rparr>)"
    using poll assms(1,2) first by (simp add: submitTransaction_def st0_def)
  show "tx_status r = FAILED \<Longrightarrow>
           submitTransaction send g x =
             (Inl (Error (''Transaction failed: '' @ optional_text (resultXdr r))),
              \<lparr>calls = n + 1, slept = 1000 * n\<rparr>)"
    using poll assms(1,2) first by (simp add: submitTransaction_def st0_def)
qed

lemma submitTransaction_exhausted:
  assumes "accepts send x" "\<forall>k\<le>30. reports_not_found g k"
  shows "submitTransaction send g x =
           (Inl (Error ''Transaction not found after polling''), \<lparr>calls = 31, slept = 30000\<rparr>)"
proof -
  from assms(1) obtain resp where resp: "send x = Inr resp" "send_status resp \<noteq> ERROR"
    by (auto simp: accepts_def split: sum.splits)
  from assms(2) have "reports_not_found g 0" by simp
  then obtain first where first: "g 0 = Inr first"
    by (auto simp: reports_not_found_def split: sum.splits)
  from submitTransaction_poll_exhausted [OF assms(2) first]
  obtain r where "tx_status r = NOT_FOUND"
    "submitTransaction_poll g first 0 (queried st0) = (Inr r, \<lparr>calls = 31, slept = 30000\<rparr>)"
    by auto
  with resp first show ?thesis by (simp add: submitTransaction_def st0_def)
qed

text \<open>
  Claim C6, as the code has it.  \<open>submitTx\<close> makes at most 30 status queries, each
  after a 2 s sleep; \<open>submitTransaction\<close> makes one query and at most 30 retries,
  each after a 1 s sleep.  While the node reports \<open>NOT_FOUND\<close> they keep polling;
  the first \<open>SUCCESS\<close> resolves and the first \<open>FAILED\<close> throws.  When the node
  reports \<open>NOT_FOUND\<close> through the cap, both throw an error of their own
  (\<open>Transaction timed out waiting for confirmation\<close>, \<open>Transaction not found after
  polling\<close>), distinct from the failure error; neither resolves to a timed-out value.
\<close>

theorem C6_polling:
  "calls (snd (submitTx send g x)) \<le> 30
   \<and> slept (snd (submitTx send g x)) = 2000 * calls (snd (submitTx send g x))
   \<and> calls (snd (submitTransaction send g x)) \<le> 31
   \<and> slept (snd (submitTransaction send g x)) =
       1000 * (calls (snd (submitTransaction send g x)) - 1)
   \<and> (accepts send x \<and> n < 30 \<and> (\<forall>k<n. reports_not_found g k) \<and> g n = Inr r
        \<and> tx_status r = SUCCESS \<longrightarrow>
      submitTx send g x = (Inr r, \<lparr>calls = n + 1, slept = 2000 * (n + 1)\<rparr>))
   \<and> (accepts send x \<and> n < 30 \<and> (\<forall>k<n. reports_not_found g k) \<and> g n = Inr r
        \<and> tx_status r = FAILED \<longrightarrow>
      submitTx send g x =
        (Inl (Error ''Transaction failed on-chain''),
         \<lparr>calls = n + 1, slept = 2000 * (n + 1)\<rparr>))
   \<and> (accepts send x \<and> (\<forall>k<30. reports_not_found g k) \<longrightarrow>
      submitTx send g x =
        (Inl (Error ''Transaction timed out waiting for confirmation''),
         \<lparr>calls = 30, slept = 60000\<rparr>))
   \<and> (send x = Inr resp \<and> send_status resp \<noteq> ERROR \<and> n \<le> 30
        \<and> (\<forall>k<n. reports_not_found g k) \<and> g n = Inr r \<and> tx_status r = SUCCESS \<longrightarrow>
      submitTransaction send g x =
        (Inr (hash resp), \<lparr>calls = n + 1, slept = 1000 * n\<rparr>))
   \<and> (send x = Inr resp \<and> send_status resp \<noteq> ERROR \<and> n \<le> 30
        \<and> (\<forall>k<n. reports_not_found g k) \<and> g n = Inr r \<and> tx_status r = FAILED \<longrightarrow>
      submitTransaction send g x =
        (Inl (Error (''Transaction failed: '' @ optional_text (resultXdr r))),
         \<lparr>calls = n + 1, slept = 1000 * n\<rparr>))
   \<and> (accepts send x \<and> (\<forall>k\<le>30. reports_not_found g k) \<longrightarrow>
      submitTransaction send g x =
        (Inl (Error ''Transaction not found after polling''),
         \<lparr>calls = 31, slept = 30000\<rparr>))"
proof (intro conjI impI)
  show "calls (snd (submitTx send g x)) \<le> 30"
    and "slept (snd (submitTx send g x)) = 2000 * calls (snd (submitTx send g x))"
    using submitTx_bounds [of send g x] by simp_all
  show "calls (snd (submitTransaction send g x)) \<le> 31"
    and "slept (snd (submitTransaction send g x)) =
           1000 * (calls (snd (submitTransaction send g x)) - 1)"
    using submitTransaction_bounds [of send g x] by simp_all
  show "submitTx send g x = (Inr r, \<lparr>calls = n + 1, slept = 2000 * (n + 1)\<rparr>)"
    if "accepts send x \<and> n < 30 \<and> (\<forall>k<n. reports_not_found g k) \<and> g n = Inr r
        \<and> tx_status r = SUCCESS"
    using that submitTx_poll_terminal(1) [of n g r] by (simp add: submitTx_accepted)
  show "submitTx send g x =
        (Inl (Error ''Transaction failed on-chain''), \<lparr>calls = n + 1, slept = 2000 * (n + 1)\<rparr>)"
    if "accepts send x \<and> n < 30 \<and> (\<forall>k<n. reports_not_found g k) \<and> g n = Inr r
        \<and> tx_status r = FAILED"
    using that submitTx_poll_terminal(2) [of n g r] by (simp add: submitTx_accepted)
  show "submitTx send g x =
        (Inl (Error ''Transaction timed out waiting for confirmation''),
         \<lparr>calls = 30, slept = 60000\<rparr>)"
    if "accepts send x \<and> (\<forall>k<30. reports_not_found g k)"
    using that submitTx_poll_exhausted [of g] by (simp add: submitTx_accepted)
  show "submitTransaction send g x = (Inr (hash resp), \<lparr>calls = n + 1, slept = 1000 * n\<rparr>)"
    if "send x = Inr resp \<and> send_status resp \<noteq> ERROR \<and> n \<le> 30
        \<and> (\<forall>k<n. reports_not_found g k) \<and> g n = Inr r \<and> tx_status r = SUCCESS"
    using that submitTransaction_terminal(1) [of send x resp n g r] by simp
  show "submitTransaction send g x =
        (Inl (Error (''Transaction failed: '' @ optional_text (resultXdr r))),
         \<lparr>calls = n + 1, slept = 1000 * n\<rparr>)"
    if "send x = Inr resp \<and> send_status resp \<noteq> ERROR \<and> n \<le> 30
        \<and> (\<forall>k<n. reports_not_found g k) \<and> g n = Inr r \<and> tx_status r = FAILED"
    using that submitTransaction_terminal(2) [of send x resp n g r] by simp
  show "submitTransaction send g x =
        (Inl (Error ''Transaction not found after polling''), \<lparr>calls = 31, slept = 30000\<rparr>)"
    if "accepts send x \<and> (\<forall>k\<le>30. reports_not_found g k)"
    using that submitTransaction_exhausted [of send x g] by simp
qed

theorem C6_witness:
  "accepts accepted ''AAAA'' \<and> reports_not_found never_found 30
   \<and> submitTx accepted never_found ''AAAA'' =
       (Inl (Error ''Transaction timed out waiting for confirmation''),
        \<lparr>calls = 30, slept = 60000\<rparr>)
   \<and> submitTransaction accepted never_found ''AAAA'' =
       (Inl (Error ''Transaction not found after polling''), \<lparr>calls = 31, slept = 30000\<rparr>)"
  using C6_polling [of accepted never_found "''AAAA''"]
  by (simp add: accepts_def accepted_def reports_not_found_def never_found_def)

text \<open>Against a node that never finds the transaction both operations throw.\<close>

theorem C6_counterexample:
  "fst (submitTx accepted never_found ''AAAA'') =
     Inl (Error ''Transaction timed out waiting for confirmation'')
   \<and> fst (submitTransaction accepted never_found ''AAAA'') =
     Inl (Error ''Transaction not found after polling'')"
proof -
  have a: "accepts accepted ''AAAA''" by (simp add: accepts_def accepted_def)
  have n: "\<forall>k\<le>30. reports_not_found never_found k"
    by (simp add: reports_not_found_def never_found_def)
  then have n': "\<forall>k<30. reports_not_found never_found k" by simp
  show ?thesis
    using submitTx_poll_exhausted [OF n'] submitTransaction_exhausted [OF a n]
    by (simp add: submitTx_accepted [OF a])
qed

section \<open>Claims about the error classifier\<close>

lemma startsWith_iff: "startsWith s p \<longleftrightarrow> (\<exists>b. s = p @ b)"
  by (induction s p rule: startsWith.induct) auto

lemma includes_str_iff: "includes_str s sub \<longleftrightarrow> (\<exists>a b. s = a @ sub @ b)"
proof (induction s)
  case Nil
  then show ?case by auto
next
  case (Cons c cs)
  show ?case
  proof
    assume "includes_str (c # cs) sub"
    then consider "startsWith (c # cs) sub" | "includes_str cs sub"
      by (auto split: if_splits)
    then show "\<exists>a b. c # cs = a @ sub @ b"
    proof cases
      case 1
      then obtain b where "c # cs = sub @ b" by (auto simp: startsWith_iff)
      then have "c # cs = [] @ sub @ b" by simp
      then show ?thesis by blast
    next
      case 2
      with Cons obtain a b where "cs = a @ sub @ b" by auto
      then have "c # cs = (c # a) @ sub @ b" by simp
      then show ?thesis by blast
    qed
  next
    assume "\<exists>a b. c # cs = a @ sub @ b"
    then obtain a b where ab: "c # cs = a @ sub @ b" by auto
    show "includes_str (c # cs) sub"
    proof (cases a)
      case Nil
      with ab have "startsWith (c # cs) sub" by (auto simp: startsWith_iff)
      then show ?thesis by simp
    next
      case (Cons d ds)
      with ab have "cs = ds @ sub @ b" by simp
      with Cons.IH have "includes_str cs sub" by blast
      then show ?thesis by simp
    qed
  qed
qed

lemma includes_str_refl: "includes_str s s"
  unfolding includes_str_iff by (rule exI [of _ "[]"], rule exI [of _ "[]"]) simp

lemma includes_str_left: "includes_str s (p @ q) \<Longrightarrow> includes_str s p"
  unfolding includes_str_iff by (metis append.assoc)

lemma includes_str_right: "includes_str s (p @ q) \<Longrightarrow> includes_str s q"
  unfolding includes_str_iff by (metis append.assoc)

lemma firstMatch_None:
  "(\<forall>(key, message) \<in> set table. \<not> includes_str lowerError (toLowerCase key)) \<Longrightarrow>
     firstMatch lowerError table = None"
  by (induction table) auto

lemma firstMatch_Some:
  "firstMatch lowerError table = Some message \<Longrightarrow> message \<in> snd ` set table"
  by (induction table) (auto split: if_splits)

lemma toLowerCase_char_code:
  "toLowerCase_char c =
     (if c = CHR ''A'' then CHR ''a'' else if c = CHR ''B'' then CHR ''b'' else if c = CHR
      ''C'' then CHR ''c'' else if c = CHR ''D'' then CHR ''d'' else if c = CHR ''E'' then CHR
      ''e'' else if c = CHR ''F'' then CHR ''f'' else if c = CHR ''G'' then CHR ''g'' else if
      c = CHR ''H'' then CHR ''h'' else if c = CHR ''I'' then CHR ''i'' else if c = CHR ''J''
      then CHR ''j'' else if c = CHR ''K'' then CHR ''k'' else if c = CHR ''L'' then CHR ''l''
      else if c = CHR ''M'' then CHR ''m'' else if c = CHR ''N'' then CHR ''n'' else if c =
      CHR ''O'' then CHR ''o'' else if c = CHR ''P'' then CHR ''p'' else if c = CHR ''Q'' then
      CHR ''q'' else if c = CHR ''R'' then CHR ''r'' else if c = CHR ''S'' then CHR ''s'' else
      if c = CHR ''T'' then CHR ''t'' else if c = CHR ''U'' then CHR ''u'' else if c = CHR
      ''V'' then CHR ''v'' else if c = CHR ''W'' then CHR ''w'' else if c = CHR ''X'' then CHR
      ''x'' else if c = CHR ''Y'' then CHR ''y'' else if c = CHR ''Z'' then CHR ''z'' else c)"
  by (simp add: toLowerCase_char_def)

lemma toLowerCase_simps:
  "toLowerCase [] = []"
  "toLowerCase (c # cs) = toLowerCase_char c # toLowerCase cs"
  by (simp_all add: toLowerCase_def)


lemma lowered_rules:
  "map (\<lambda>(key, message). (toLowerCase key, message)) ERROR_MESSAGE_MAP =
     [(''already initialized'',
         ''Contract is already initialized. Check if it was deployed previously.''),
      (''insufficient balance'',
         ''Insufficient token balance for this operation.''),
      (''insufficient allowance'',
         ''Insufficient allowance approved for the spender.''),
      (''amount must be positive'',
         ''Amount must be greater than zero.''),
      (''max_supply exceeded'',
         ''Operation would exceed the maximum supply cap.''),
      (''mint would exceed max_supply'',
         ''Minting this amount would exceed the maximum supply cap.''),
      (''account is frozen'',
         ''The account is frozen and cannot perform transfers.''),
      (''not initialized'',
         ''Contract is not initialized. This token may not exist.''),
      (''no pending admin'',
         ''No pending admin to accept. Did you propose_admin first?''),
      (''insufficient balance to burn'',
         ''Cannot burn more tokens than the account holds.''),
      (''schedule already exists'',
         ''A vesting schedule already exists for this recipient.''),
      (''no schedule found'',
         ''No vesting schedule found for this recipient.''),
      (''schedule has been revoked'',
         ''This vesting schedule has been revoked.''),
      (''nothing to release'',
         ''No vested tokens are available to release.''),
      (''schedule already revoked'',
         ''This schedule has already been revoked.''),
      (''end_ledger must be after cliff_ledger'',
         ''End ledger must be after cliff ledger.''),
      (''total_amount must be positive'',
         ''Total amount must be greater than zero.''),
      (''invalid stellar public key'',
         ''The provided Stellar address is not valid.''),
      (''max_supply must be positive'',
         ''Maximum supply must be greater than zero.''),
      (''initial_supply exceeds max_supply'',
         ''Initial supply cannot exceed maximum supply.''),
      (''allowance would overflow'',
         ''Allowance amount is too large and would overflow.''),
      (''approval would exceed max_supply'',
         ''Approval amount cannot exceed the token's maximum supply.'')]"
  by (simp add: ERROR_MESSAGE_MAP_def toLowerCase_simps toLowerCase_char_code)

lemma firstMatch_lowered:
  "firstMatch lowerError table =
     map_option snd (find (\<lambda>(pattern, message). includes_str lowerError pattern)
       (map (\<lambda>(key, message). (toLowerCase key, message)) table))"
  by (induction table) auto

lemma no_rule_lowered:
  "(\<forall>(key, message) \<in> set table. \<not> includes_str lowerError (toLowerCase key)) \<longleftrightarrow>
   (\<forall>(pattern, message) \<in> set (map (\<lambda>(key, message). (toLowerCase key, message)) table).
      \<not> includes_str lowerError pattern)"
  by (induction table) auto

lemma burn_rule_shadowed:
  assumes "includes_str (toLowerCase s) ''insufficient balance to burn''"
  shows "parseSorobanError s \<in>
           {''Contract is already initialized. Check if it was deployed previously.'',
            ''Insufficient token balance for this operation.''}"
proof -
  have "includes_str (toLowerCase s) (''insufficient balance'' @ '' to burn'')"
    using assms by simp
  then have "includes_str (toLowerCase s) ''insufficient balance''"
    by (rule includes_str_left)
  then show ?thesis
    by (simp add: parseSorobanError_def Let_def firstMatch_lowered lowered_rules)
qed

lemma total_amount_rule_shadowed:
  assumes "includes_str (toLowerCase s) ''total_amount must be positive''"
  shows "parseSorobanError s \<in>
           {''Contract is already initialized. Check if it was deployed previously.'',
            ''Insufficient token balance for this operation.'',
            ''Insufficient allowance approved for the spender.'',
            ''Amount must be greater than zero.''}"
proof -
  have "includes_str (toLowerCase s) (''total_'' @ ''amount must be positive'')"
    using assms by simp
  then have "includes_str (toLowerCase s) ''amount must be positive''"
    by (rule includes_str_right)
  then show ?thesis
    by (simp add: parseSorobanError_def Let_def firstMatch_lowered lowered_rules)
qed

text \<open>
  Claim C7 says that no rule of the table is shadowed.  In the table the rule
  \<open>insufficient balance to burn\<close> comes after \<open>insufficient balance\<close>, and
  \<open>total_amount must be positive\<close> after \<open>amount must be positive\<close>: whenever the
  later pattern occurs in the input the earlier one occurs too, so the later rule's
  message is never the classification of an input that contains its pattern.
\<close>

theorem C7_shadowed_rules:
  "(includes_str (toLowerCase s) ''insufficient balance to burn'' \<longrightarrow>
      parseSorobanError s \<noteq> ''Cannot burn more tokens than the account holds.'')
   \<and> (includes_str (toLowerCase s) ''total_amount must be positive'' \<longrightarrow>
      parseSorobanError s \<noteq> ''Total amount must be greater than zero.'')"
  using burn_rule_shadowed [of s] total_amount_rule_shadowed [of s] by auto

text \<open>The input \<open>insufficient balance to burn\<close> is not classified by its own rule.\<close>

theorem C7_failing_input:
  "includes_str (toLowerCase ''insufficient balance to burn'') ''insufficient balance to burn''
   \<and> parseSorobanError ''insufficient balance to burn'' \<noteq>
       ''Cannot burn more tokens than the account holds.''"
  using C7_shadowed_rules [of "''insufficient balance to burn''"]
  by (simp add: toLowerCase_simps toLowerCase_char_code)

text \<open>
  Claim C8, as the code has it.  \<open>parseSorobanError\<close> returns a message string for
  every input: a message of the rule table, one of the five fallback messages, or
  the input itself.  It returns no error kind.  When no pattern of the table and
  none of the five fallback patterns occurs in the lower-cased input, the message
  is the input itself, so it contains the original text.
\<close>

theorem C8_unmatched_is_returned:
  "parseSorobanError s \<in>
     snd ` set ERROR_MESSAGE_MAP
     \<union> {''Contract invocation failed. The transaction may have invalid parameters.'',
        ''Insufficient XLM balance to pay transaction fees.'',
        ''The operation timed out. Please try again.'',
        ''Transaction deadline exceeded. Please try again.'',
        ''Failed to build transaction. Please check your inputs.''}
     \<union> {s}
   \<and> ((\<forall>(key, message) \<in> set ERROR_MESSAGE_MAP.
           \<not> includes_str (toLowerCase s) (toLowerCase key))
        \<and> (\<forall>pattern \<in> {''invocation failed'', ''insufficient funds'', ''timeout'',
           ''deadline exceeded'', ''build failed''}.
           \<not> includes_str (toLowerCase s) pattern)
      \<longrightarrow> parseSorobanError s = s \<and> includes_str (parseSorobanError s) s)"
proof (intro conjI impI)
  show "parseSorobanError s \<in>
     snd ` set ERROR_MESSAGE_MAP
     \<union> {''Contract invocation failed. The transaction may have invalid parameters.'',
        ''Insufficient XLM balance to pay transaction fees.'',
        ''The operation timed out. Please try again.'',
        ''Transaction deadline exceeded. Please try again.'',
        ''Failed to build transaction. Please check your inputs.''}
     \<union> {s}"
  proof (cases "firstMatch (toLowerCase s) ERROR_MESSAGE_MAP")
    case None
    then show ?thesis by (simp add: parseSorobanError_def Let_def)
  next
    case (Some message)
    then have "message \<in> snd ` set ERROR_MESSAGE_MAP" by (rule firstMatch_Some)
    with Some show ?thesis by (simp add: parseSorobanError_def Let_def)
  qed
next
  assume h: "(\<forall>(key, message) \<in> set ERROR_MESSAGE_MAP.
           \<not> includes_str (toLowerCase s) (toLowerCase key))
        \<and> (\<forall>pattern \<in> {''invocation failed'', ''insufficient funds'', ''timeout'',
           ''deadline exceeded'', ''build failed''}.
           \<not> includes_str (toLowerCase s) pattern)"
  then have "firstMatch (toLowerCase s) ERROR_MESSAGE_MAP = None"
    by (intro firstMatch_None) simp
  with h show unchanged: "parseSorobanError s = s"
    by (simp add: parseSorobanError_def Let_def)
  show "includes_str (parseSorobanError s) s"
    unfolding unchanged by (rule includes_str_refl)
qed

theorem C8_witness:
  "parseSorobanError ''totally unrecognized xyz'' = ''totally unrecognized xyz''
   \<and> includes_str (parseSorobanError ''totally unrecognized xyz'') ''totally unrecognized xyz''"
proof -
  have L: "toLowerCase ''totally unrecognized xyz'' = ''totally unrecognized xyz''"
    by (simp add: toLowerCase_simps toLowerCase_char_code)
  have 1: "\<forall>(key, message) \<in> set ERROR_MESSAGE_MAP.
       \<not> includes_str (toLowerCase ''totally unrecognized xyz'') (toLowerCase key)"
    unfolding no_rule_lowered lowered_rules L by simp
  have 2: "\<forall>pattern \<in> {''invocation failed'', ''insufficient funds'', ''timeout'',
             ''deadline exceeded'', ''build failed''}.
       \<not> includes_str (toLowerCase ''totally unrecognized xyz'') pattern"
    unfolding L by simp
  show ?thesis
    using C8_unmatched_is_returned [of "''totally unrecognized xyz''"] 1 2 by blast
qed

text \<open>
  The result carries no kind: the input \<open>Insufficient token balance for this
  operation.\<close> matches no rule and no fallback pattern, the input \<open>insufficient
  balance\<close> matches a rule, and both are classified alike.
\<close>

theorem C8_counterexample:
  "firstMatch (toLowerCase ''Insufficient token balance for this operation.'')
     ERROR_MESSAGE_MAP = None
   \<and> \<not> includes_str (toLowerCase ''Insufficient token balance for this operation.'')
         ''invocation failed''
   \<and> \<not> includes_str (toLowerCase ''Insufficient token balance for this operation.'')
         ''insufficient funds''
   \<and> \<not> includes_str (toLowerCase ''Insufficient token balance for this operation.'')
         ''timeout''
   \<and> \<not> includes_str (toLowerCase ''Insufficient token balance for this operation.'')
         ''deadline exceeded''
   \<and> \<not> includes_str (toLowerCase ''Insufficient token balance for this operation.'')
         ''build failed''
   \<and> firstMatch (toLowerCase ''insufficient balance'') ERROR_MESSAGE_MAP =
       Some ''Insufficient token balance for this operation.''
   \<and> parseSorobanError ''Insufficient token balance for this operation.'' =
       parseSorobanError ''insufficient balance''"
proof -
  have L: "toLowerCase ''Insufficient token balance for this operation.'' =
           ''insufficient token balance for this operation.''"
    by (simp add: toLowerCase_simps toLowerCase_char_code)
  have M: "toLowerCase ''insufficient balance'' = ''insufficient balance''"
    by (simp add: toLowerCase_simps toLowerCase_char_code)
  have 1: "firstMatch (toLowerCase ''Insufficient token balance for this operation.'')
             ERROR_MESSAGE_MAP = None"
    unfolding firstMatch_lowered lowered_rules L by simp
  have 2: "firstMatch (toLowerCase ''insufficient balance'') ERROR_MESSAGE_MAP =
             Some ''Insufficient token balance for this operation.''"
    unfolding firstMatch_lowered lowered_rules M by simp
  have 3: "\<not> includes_str ''insufficient token balance for this operation.'' ''invocation failed''"
    "\<not> includes_str ''insufficient token balance for this operation.'' ''insufficient funds''"
    "\<not> includes_str ''insufficient token balance for this operation.'' ''timeout''"
    "\<not> includes_str ''insufficient token balance for this operation.'' ''deadline exceeded''"
    "\<not> includes_str ''insufficient token balance for this operation.'' ''build failed''"
    by simp_all
  show ?thesis
    using 1 2 3 by (simp add: parseSorobanError_def Let_def L)
qed

section \<open>Claims about the pre-flight simulation\<close>

lemmas sim_defs = simulateTransaction_def Let_def isSimulationError_def isSimulationSuccess_def
  sim_error_def sim_result_def

text \<open>
  Claim C9.  In every result of \<open>simulateTransaction\<close>, \<open>success\<close> implies an empty
  error list; \<open>success\<close> holds exactly when the transaction was built and the node
  answered with a success that carries a result payload; a success answer without
  payload gives \<open>success = false\<close> with one generic error.
\<close>

theorem C9_preflight_shape:
  "(success (simulateTransaction build simulate contractId method args config source) \<longrightarrow>
      errors (simulateTransaction build simulate contractId method args config source) = [])
   \<and> (success (simulateTransaction build simulate contractId method args config source) \<longleftrightarrow>
      (\<exists>tx payload. build contractId method args config source = Inr tx
         \<and> simulate config tx = Inr (SimulationSuccessResponse (Some payload))))
   \<and> (build contractId method args config source = Inr tx
        \<and> simulate config tx = Inr (SimulationSuccessResponse None) \<longrightarrow>
      simulateTransaction build simulate contractId method args config source =
        \<lparr>success = False, warnings = [],
         errors = [''Transaction simulation failed. Please check your inputs.''],
         simulationDetails = None\<rparr>)"
  by (auto simp: sim_defs split: sum.splits SimulateTransactionResponse.splits option.splits)

theorem C9_witness:
  "simulateTransaction build_ok node_no_result ''CCONTRACT'' ''transfer'' [] () ''GSOURCE'' =
     \<lparr>success = False, warnings = [],
      errors = [''Transaction simulation failed. Please check your inputs.''],
      simulationDetails = None\<rparr>
   \<and> success (simulateTransaction build_ok node_result ''CCONTRACT'' ''transfer'' [] () ''GSOURCE'')
   \<and> errors (simulateTransaction build_ok node_result ''CCONTRACT'' ''transfer'' [] () ''GSOURCE'') = []"
  using C9_preflight_shape [of build_ok node_no_result "''CCONTRACT''" "''transfer''" "[]" "()" "''GSOURCE''" "()"]
    C9_preflight_shape [of build_ok node_result "''CCONTRACT''" "''transfer''" "[]" "()" "''GSOURCE''" "()"]
  by (simp add: build_ok_def node_no_result_def node_result_def)

text \<open>
  Claim C10.  \<open>simulateTransaction\<close> always returns a result: when building the
  transaction throws, or the remote call rejects, the result has \<open>success = false\<close>
  and exactly one error, the classification of the caught message; every
  unsuccessful result carries exactly one error.
\<close>

theorem C10_never_rejects:
  "(build contractId method args config source = Inl error \<longrightarrow>
      simulateTransaction build simulate contractId method args config source =
        \<lparr>success = False, warnings = [],
         errors = [parseSorobanError (caught_message error)], simulationDetails = None\<rparr>)
   \<and> (build contractId method args config source = Inr tx
        \<and> simulate config tx = Inl error \<longrightarrow>
      simulateTransaction build simulate contractId method args config source =
        \<lparr>success = False, warnings = [],
         errors = [parseSorobanError (caught_message error)], simulationDetails = None\<rparr>)
   \<and> (\<not> success (simulateTransaction build simulate contractId method args config source) \<longrightarrow>
      length (errors (simulateTransaction build simulate contractId method args config source)) = 1)"
  by (auto simp: sim_defs split: sum.splits SimulateTransactionResponse.splits option.splits)

theorem C10_witness:
  "build_throws ''not-a-contract'' ''transfer'' [] () ''GSOURCE'' =
     Inl (ErrorInstance ''Invalid contract ID'')
   \<and> simulateTransaction build_throws node_result ''not-a-contract'' ''transfer'' [] () ''GSOURCE'' =
     \<lparr>success = False, warnings = [],
      errors = [parseSorobanError ''Invalid contract ID''], simulationDetails = None\<rparr>"
  using C10_never_rejects [of build_throws "''not-a-contract''" "''transfer''" "[]" "()" "''GSOURCE''"
      "ErrorInstance ''Invalid contract ID''" node_result]
  by (simp add: build_throws_def caught_message_def)

end
